theory Spec2Isabelle
  imports Complex_Main
begin

section \<open>JavaScript numbers\<close>

text \<open>
  Every quantity of the timeline engine is a JavaScript \<^verbatim>\<open>number\<close>. The model keeps the
  finite values as exact reals (rounding and overflow are left out) and keeps the one
  non-finite value the engine can meet by itself: \<open>NaN\<close>, which arises when an array is
  read out of range (\<^verbatim>\<open>undefined\<close>) and the result enters an arithmetic operation.
  Arithmetic propagates \<open>NaN\<close>; every comparison with \<open>NaN\<close> is false.
\<close>

datatype jsnum = Fin real | NaN

fun jadd :: "jsnum \<Rightarrow> jsnum \<Rightarrow> jsnum" where
  "jadd (Fin a) (Fin b) = Fin (a + b)"
| "jadd _ _ = NaN"

fun jsub :: "jsnum \<Rightarrow> jsnum \<Rightarrow> jsnum" where
  "jsub (Fin a) (Fin b) = Fin (a - b)"
| "jsub _ _ = NaN"

fun jmul :: "jsnum \<Rightarrow> jsnum \<Rightarrow> jsnum" where
  "jmul (Fin a) (Fin b) = Fin (a * b)"
| "jmul _ _ = NaN"

text \<open>
  A division by zero gives an infinity or \<open>NaN\<close> in the source; the model has no
  infinities and maps both to \<open>NaN\<close>.
\<close>

fun jdiv :: "jsnum \<Rightarrow> jsnum \<Rightarrow> jsnum" where
  "jdiv (Fin a) (Fin b) = (if b = 0 then NaN else Fin (a / b))"
| "jdiv _ _ = NaN"

fun jlt :: "jsnum \<Rightarrow> jsnum \<Rightarrow> bool" where
  "jlt (Fin a) (Fin b) = (a < b)"
| "jlt _ _ = False"

fun jle :: "jsnum \<Rightarrow> jsnum \<Rightarrow> bool" where
  "jle (Fin a) (Fin b) = (a \<le> b)"
| "jle _ _ = False"

definition jgt :: "jsnum \<Rightarrow> jsnum \<Rightarrow> bool" where
  "jgt a b = jlt b a"

definition jge :: "jsnum \<Rightarrow> jsnum \<Rightarrow> bool" where
  "jge a b = jle b a"

text \<open>
  \<^verbatim>\<open>xs[i]\<close> used as an operand of \<^verbatim>\<open>-\<close>: an index outside the array reads
  \<^verbatim>\<open>undefined\<close>, which the subtraction turns into \<open>NaN\<close>. Nothing is raised.
\<close>

definition num_at :: "real list \<Rightarrow> int \<Rightarrow> jsnum" where
  "num_at xs i = (if 0 \<le> i \<and> i < int (length xs) then Fin (xs ! nat i) else NaN)"

section \<open>Data model (types.ts)\<close>

text \<open>
  Only the fields the timeline engine reads are kept. The coordinates \<^verbatim>\<open>x\<close> and
  \<^verbatim>\<open>y\<close> of a \<^verbatim>\<open>Point\<close> are named \<open>px\<close> and \<open>py\<close>, and \<^verbatim>\<open>id\<close> and
  \<^verbatim>\<open>order\<close> carry the name of their interface as a prefix.
\<close>

record point =
  px :: real
  py :: real

record annotation =
  ann_id :: string
  pathIndex :: int
  ann_order :: real
  segmentDuration :: "jsnum option"
  pauseDuration :: "jsnum option"

record area =
  area_id :: string
  area_order :: real
  appearDuration :: "jsnum option"

record settings =
  enableFlash :: bool
  flashDuration :: jsnum
  defaultSegmentDuration :: jsnum
  defaultPauseDuration :: jsnum
  defaultAreaDuration :: jsnum

section \<open>Path segments and distances (pathData)\<close>

definition dist_pt :: "point \<Rightarrow> point \<Rightarrow> real" where
  "dist_pt p1 p2 = sqrt ((px p2 - px p1)\<^sup>2 + (py p2 - py p1)\<^sup>2)"

record path_data =
  totalLength :: real
  segmentLengths :: "real list"
  pointDistances :: "real list"

text \<open>
  The loop \<^verbatim>\<open>for (let i = 0; i < points.length - 1; i++)\<close>, with the three
  accumulators in one record.
\<close>

function pathData_loop :: "point list \<Rightarrow> nat \<Rightarrow> path_data \<Rightarrow> path_data" where
  "pathData_loop points i acc =
     (if int i < int (length points) - 1
      then let d = dist_pt (points ! i) (points ! (i + 1));
               total = totalLength acc + d
           in pathData_loop points (i + 1)
                \<lparr>totalLength = total,
                 segmentLengths = segmentLengths acc @ [d],
                 pointDistances = pointDistances acc @ [total]\<rparr>
      else acc)"
  by pat_completeness auto
termination
  by (relation "measure (\<lambda>(points, i, acc). length points - i)") auto

declare pathData_loop.simps [simp del]

definition pathData :: "point list \<Rightarrow> path_data" where
  "pathData points =
     pathData_loop points 0 \<lparr>totalLength = 0, segmentLengths = [], pointDistances = [0]\<rparr>"

text \<open>
  The sum of the values of \<open>dist_pt\<close> on the segments before waypoint \<open>i\<close>, used in the
  invariant of the loop.
\<close>

definition cumulative :: "point list \<Rightarrow> nat \<Rightarrow> real" where
  "cumulative points i = (\<Sum>k<i. dist_pt (points ! k) (points ! Suc k))"

section \<open>Timeline schedule (timeline)\<close>

datatype event_type = Draw | Wait | AreaEv

text \<open>
  An entry of the schedule. \<open>etype\<close> is the field \<^verbatim>\<open>type\<close>, whose values
  \<^verbatim>\<open>'draw'\<close>, \<^verbatim>\<open>'wait'\<close> and \<^verbatim>\<open>'area'\<close> are \<open>Draw\<close>, \<open>Wait\<close> and \<open>AreaEv\<close>;
  \<open>itemId\<close> is optional.
\<close>

record event =
  etype :: event_type
  startTime :: jsnum
  duration :: jsnum
  startDist :: jsnum
  endDist :: jsnum
  itemId :: "string option"

text \<open>The items, tagged with \<^verbatim>\<open>itemType\<close>.\<close>

datatype item = AnnotationItem annotation | AreaItem area

fun item_order :: "item \<Rightarrow> real" where
  "item_order (AnnotationItem a) = ann_order a"
| "item_order (AreaItem a) = area_order a"

text \<open>
  \<^verbatim>\<open>[...annotations.map(..), ...areas.map(..)].sort((a, b) => a.order - b.order)\<close>:
  the sort of an array is stable, as \<open>sort_key\<close> is.
\<close>

definition sorted_items :: "annotation list \<Rightarrow> area list \<Rightarrow> item list" where
  "sorted_items annotations areas =
     sort_key item_order (map AnnotationItem annotations @ map AreaItem areas)"

text \<open>
  The local variables of the builder: \<open>sched\<close> is the array \<^verbatim>\<open>schedule\<close> under
  construction.
\<close>

record builder_state =
  sched :: "event list"
  timeCursor :: jsnum
  distCursor :: jsnum
  currentPointIdx :: int

definition init_state :: builder_state where
  "init_state = \<lparr>sched = [], timeCursor = Fin 0, distCursor = Fin 0, currentPointIdx = 0\<rparr>"

text \<open>\<^verbatim>\<open>a ?? b\<close>\<close>

definition nullish :: "'a option \<Rightarrow> 'a \<Rightarrow> 'a" where
  "nullish a b = (case a of Some v \<Rightarrow> v | None \<Rightarrow> b)"

text \<open>The distance of the segment an annotation asks for (\<^verbatim>\<open>segmentDist\<close>).\<close>

definition segmentDist :: "path_data \<Rightarrow> builder_state \<Rightarrow> int \<Rightarrow> jsnum" where
  "segmentDist pd st targetIdx =
     (if targetIdx > currentPointIdx st
      then jsub (num_at (pointDistances pd) targetIdx)
                (num_at (pointDistances pd) (currentPointIdx st))
      else Fin 0)"

text \<open>The block "Draw Path Segment" of the loop body.\<close>

definition draw_segment :: "path_data \<Rightarrow> settings \<Rightarrow> builder_state \<Rightarrow> annotation \<Rightarrow> builder_state" where
  "draw_segment pd s st ann =
     (let targetIdx = pathIndex ann;
          sd = segmentDist pd st targetIdx
      in if jgt sd (Fin 0) \<or> (currentPointIdx st = 0 \<and> targetIdx = 0 \<and> length (sched st) = 0)
         then let drawDuration = nullish (segmentDuration ann) (defaultSegmentDuration s)
              in st\<lparr>sched := sched st @
                       [\<lparr>etype = Draw, startTime = timeCursor st, duration = drawDuration,
                         startDist = distCursor st, endDist = jadd (distCursor st) sd,
                         itemId = None\<rparr>],
                     timeCursor := jadd (timeCursor st) drawDuration,
                     distCursor := jadd (distCursor st) sd\<rparr>
         else st)"

text \<open>The block "Wait/Show Label" of the loop body, and the update of the index.\<close>

definition wait_label :: "settings \<Rightarrow> builder_state \<Rightarrow> annotation \<Rightarrow> builder_state" where
  "wait_label s st ann =
     (let waitDuration = nullish (pauseDuration ann) (defaultPauseDuration s)
      in st\<lparr>sched := sched st @
               [\<lparr>etype = Wait, startTime = timeCursor st, duration = waitDuration,
                 startDist = distCursor st, endDist = distCursor st,
                 itemId = Some (ann_id ann)\<rparr>],
             timeCursor := jadd (timeCursor st) waitDuration,
             currentPointIdx := pathIndex ann\<rparr>)"

text \<open>The body of \<^verbatim>\<open>for (const item of items)\<close>.\<close>

fun step :: "path_data \<Rightarrow> settings \<Rightarrow> builder_state \<Rightarrow> item \<Rightarrow> builder_state" where
  "step pd s st (AnnotationItem ann) = wait_label s (draw_segment pd s st ann) ann"
| "step pd s st (AreaItem ar) =
     (let d = nullish (appearDuration ar) (defaultAreaDuration s)
      in st\<lparr>sched := sched st @
               [\<lparr>etype = AreaEv, startTime = timeCursor st, duration = d,
                 startDist = distCursor st, endDist = distCursor st,
                 itemId = Some (area_id ar)\<rparr>],
             timeCursor := jadd (timeCursor st) d\<rparr>)"

definition run_items :: "path_data \<Rightarrow> settings \<Rightarrow> builder_state \<Rightarrow> item list \<Rightarrow> builder_state" where
  "run_items pd s st items = foldl (step pd s) st items"

text \<open>The block "Finish path tail".\<close>

definition remainingDist :: "path_data \<Rightarrow> builder_state \<Rightarrow> jsnum" where
  "remainingDist pd st =
     jsub (Fin (totalLength pd)) (num_at (pointDistances pd) (currentPointIdx st))"

definition finish_tail :: "point list \<Rightarrow> path_data \<Rightarrow> settings \<Rightarrow> builder_state \<Rightarrow> builder_state" where
  "finish_tail points pd s st =
     (if length points > 0 \<and> currentPointIdx st < int (length points) - 1
      then if jgt (remainingDist pd st) (Fin 0.1)
           then let drawDuration = defaultSegmentDuration s
                in st\<lparr>sched := sched st @
                         [\<lparr>etype = Draw, startTime = timeCursor st, duration = drawDuration,
                           startDist = distCursor st,
                           endDist = jadd (distCursor st) (remainingDist pd st),
                           itemId = None\<rparr>],
                       timeCursor := jadd (timeCursor st) drawDuration\<rparr>
           else st
      else st)"

record timeline_t =
  schedule :: "event list"
  totalDuration :: jsnum

definition timeline :: "point list \<Rightarrow> annotation list \<Rightarrow> area list \<Rightarrow> settings \<Rightarrow> timeline_t" where
  "timeline points annotations areas s =
     (let pd = pathData points;
          st = finish_tail points pd s
                 (run_items pd s init_state (sorted_items annotations areas))
      in \<lparr>schedule = sched st, totalDuration = timeCursor st\<rparr>)"

section \<open>Animation state at a time (getAnimationState)\<close>

record animation_state =
  currentDistance :: jsnum
  activeAnnotationIds :: "string list"
  visibleAreaIds :: "string list"
  isFlashing :: bool

text \<open>
  The predicate of \<^verbatim>\<open>find\<close>:
  \<^verbatim>\<open>effectiveTime >= e.startTime && effectiveTime < e.startTime + e.duration\<close>.
\<close>

definition isActive :: "jsnum \<Rightarrow> event \<Rightarrow> bool" where
  "isActive effectiveTime e =
     (jge effectiveTime (startTime e) \<and> jlt effectiveTime (jadd (startTime e) (duration e)))"

text \<open>The predicate of \<^verbatim>\<open>filter\<close>: \<^verbatim>\<open>e.startTime + e.duration <= effectiveTime\<close>.\<close>

definition isPassed :: "jsnum \<Rightarrow> event \<Rightarrow> bool" where
  "isPassed effectiveTime e = jle (jadd (startTime e) (duration e)) effectiveTime"

text \<open>
  \<^verbatim>\<open>if (e.type === ty && e.itemId) ids.push(e.itemId)\<close>: an absent id and the empty
  string are both falsy.
\<close>

definition pushed_id :: "event_type \<Rightarrow> event \<Rightarrow> string list" where
  "pushed_id ty e =
     (if etype e = ty
      then (case itemId e of None \<Rightarrow> [] | Some i \<Rightarrow> if i = [] then [] else [i])
      else [])"

definition pushed_ids :: "event_type \<Rightarrow> event list \<Rightarrow> string list" where
  "pushed_ids ty es = concat (map (pushed_id ty) es)"

text \<open>\<^verbatim>\<open>activeEvent?.type === ty && activeEvent.itemId\<close>\<close>

definition pushed_active :: "event_type \<Rightarrow> event option \<Rightarrow> string list" where
  "pushed_active ty activeEvent = (case activeEvent of None \<Rightarrow> [] | Some e \<Rightarrow> pushed_id ty e)"

text \<open>The interpolation inside an active draw event.\<close>

definition interpolate :: "jsnum \<Rightarrow> event \<Rightarrow> jsnum" where
  "interpolate effectiveTime e =
     (let progress = jdiv (jsub effectiveTime (startTime e)) (duration e)
      in jadd (startDist e) (jmul (jsub (endDist e) (startDist e)) progress))"

definition getAnimationState :: "settings \<Rightarrow> timeline_t \<Rightarrow> path_data \<Rightarrow> jsnum \<Rightarrow> animation_state" where
  "getAnimationState s tline pd time =
     (if enableFlash s \<and> jlt time (flashDuration s)
      then \<lparr>currentDistance = Fin 0, activeAnnotationIds = [], visibleAreaIds = [],
            isFlashing = True\<rparr>
      else
        let effectiveTime = (if enableFlash s then jsub time (flashDuration s) else time)
        in if jlt effectiveTime (Fin 0)
           then \<lparr>currentDistance = Fin 0, activeAnnotationIds = [], visibleAreaIds = [],
                 isFlashing = False\<rparr>
           else
             let activeEvent = find (isActive effectiveTime) (schedule tline);
                 passed = filter (isPassed effectiveTime) (schedule tline);
                 visibleAnnIds = pushed_ids Wait passed @ pushed_active Wait activeEvent;
                 visAreaIds = pushed_ids AreaEv passed @ pushed_active AreaEv activeEvent;
                 currentDistance =
                   (case activeEvent of
                      Some e \<Rightarrow>
                        if etype e = Draw then interpolate effectiveTime e else startDist e
                    | None \<Rightarrow>
                        if jge effectiveTime (totalDuration tline) then Fin (totalLength pd)
                        else Fin 0)
             in \<lparr>currentDistance = currentDistance, activeAnnotationIds = visibleAnnIds,
                  visibleAreaIds = visAreaIds, isFlashing = False\<rparr>)"

section \<open>Inputs of the scenarios\<close>

text \<open>The initial settings of the application (\<^verbatim>\<open>useState<AppSettings>\<close>).\<close>

definition app_settings :: settings where
  "app_settings =
     \<lparr>enableFlash = False, flashDuration = Fin 0.5, defaultSegmentDuration = Fin 2,
      defaultPauseDuration = Fin 1.5, defaultAreaDuration = Fin 2\<rparr>"

text \<open>
  The boundary scenario: the waypoints (0,0), (10,0), (10,10), one annotation on waypoint
  1 drawn in 2 seconds and held for 1 second, the default segment duration 3 and no flash.
\<close>

abbreviation boundary_points :: "point list" where
  "boundary_points \<equiv> [\<lparr>px = 0, py = 0\<rparr>, \<lparr>px = 10, py = 0\<rparr>, \<lparr>px = 10, py = 10\<rparr>]"

abbreviation boundary_annotation :: "string \<Rightarrow> real \<Rightarrow> annotation" where
  "boundary_annotation aid ord \<equiv>
     \<lparr>ann_id = aid, pathIndex = 1, ann_order = ord,
      segmentDuration = Some (Fin 2), pauseDuration = Some (Fin 1)\<rparr>"

abbreviation boundary_settings :: "settings \<Rightarrow> settings" where
  "boundary_settings s \<equiv> s\<lparr>enableFlash := False, defaultSegmentDuration := Fin 3\<rparr>"

text \<open>Four waypoints, three sides of a square of side 10.\<close>

abbreviation square_points :: "point list" where
  "square_points \<equiv>
     [\<lparr>px = 0, py = 0\<rparr>, \<lparr>px = 10, py = 0\<rparr>, \<lparr>px = 10, py = 10\<rparr>, \<lparr>px = 0, py = 10\<rparr>]"

text \<open>Three waypoints joined by segments of length 5 and 13, neither along an axis.\<close>

abbreviation slanted_points :: "point list" where
  "slanted_points \<equiv> [\<lparr>px = 0, py = 0\<rparr>, \<lparr>px = 3, py = 4\<rparr>, \<lparr>px = 15, py = 9\<rparr>]"

text \<open>An annotation on the first waypoint, as the only item.\<close>

abbreviation bootstrap_annotation :: annotation where
  "bootstrap_annotation \<equiv>
     \<lparr>ann_id = ''a1'', pathIndex = 0, ann_order = 1,
      segmentDuration = Some (Fin 2), pauseDuration = Some (Fin 1)\<rparr>"

text \<open>Two areas, the second one with a negative fade-in duration.\<close>

abbreviation shrinking_areas :: "area list" where
  "shrinking_areas \<equiv>
     [\<lparr>area_id = ''z1'', area_order = 1, appearDuration = Some (Fin 5)\<rparr>,
      \<lparr>area_id = ''z2'', area_order = 2, appearDuration = Some (Fin (- 3))\<rparr>]"

text \<open>An annotation whose \<open>pathIndex\<close> is beyond the three waypoints of the scenario.\<close>

abbreviation stray_annotation :: annotation where
  "stray_annotation \<equiv>
     \<lparr>ann_id = ''a7'', pathIndex = 7, ann_order = 1,
      segmentDuration = Some (Fin 2), pauseDuration = Some (Fin 1)\<rparr>"

text \<open>
  Three waypoints at the same place (a path of length 0), and two annotations scheduled in
  the order waypoint 2, waypoint 0.
\<close>

abbreviation coincident_points :: "point list" where
  "coincident_points \<equiv> [\<lparr>px = 0, py = 0\<rparr>, \<lparr>px = 0, py = 0\<rparr>, \<lparr>px = 0, py = 0\<rparr>]"

abbreviation backward_first :: annotation where
  "backward_first \<equiv>
     \<lparr>ann_id = ''a1'', pathIndex = 2, ann_order = 1,
      segmentDuration = Some (Fin 2), pauseDuration = Some (Fin 1)\<rparr>"

abbreviation backward_second :: annotation where
  "backward_second \<equiv>
     \<lparr>ann_id = ''a2'', pathIndex = 0, ann_order = 2,
      segmentDuration = Some (Fin 2), pauseDuration = Some (Fin 1)\<rparr>"

section \<open>Notions used in the statements\<close>

text \<open>
  \<open>chained c es c'\<close>: the events \<open>es\<close> are laid out one after the other from the time
  \<open>c\<close>, each starting at the sum of the start and the duration of the one before, and
  the last one ends at \<open>c'\<close>.
\<close>

fun chained :: "jsnum \<Rightarrow> event list \<Rightarrow> jsnum \<Rightarrow> bool" where
  "chained c [] c' = (c' = c)"
| "chained c (e # es) c' = (startTime e = c \<and> chained (jadd c (duration e)) es c')"

text \<open>
  The ids of a type that \<^verbatim>\<open>getAnimationState\<close> collects at an effective time (from the
  passed events and from the active one), and at an elapsed time (nothing during the
  flash and before time 0), as sets.
\<close>

definition visible :: "event_type \<Rightarrow> event list \<Rightarrow> jsnum \<Rightarrow> string set" where
  "visible ty es t =
     set (pushed_ids ty (filter (isPassed t) es) @ pushed_active ty (find (isActive t) es))"

definition revealed :: "event_type \<Rightarrow> settings \<Rightarrow> event list \<Rightarrow> jsnum \<Rightarrow> string set" where
  "revealed ty s es time =
     (if enableFlash s \<and> jlt time (flashDuration s) then {}
      else let effectiveTime = (if enableFlash s then jsub time (flashDuration s) else time)
           in if jlt effectiveTime (Fin 0) then {} else visible ty es effectiveTime)"

text \<open>
  A number that is neither \<open>NaN\<close> nor negative; durations of the inputs that are all
  such numbers (where present); events whose four numbers are; and the invariant of the
  builder under such durations: the cursors are such numbers, and every event of the
  schedule is and has ended by the time cursor.
\<close>

definition nonneg :: "jsnum \<Rightarrow> bool" where
  "nonneg a = jle (Fin 0) a"

definition nonneg_opt :: "jsnum option \<Rightarrow> bool" where
  "nonneg_opt a = (case a of None \<Rightarrow> True | Some v \<Rightarrow> nonneg v)"

definition nonneg_durations :: "annotation list \<Rightarrow> area list \<Rightarrow> settings \<Rightarrow> bool" where
  "nonneg_durations annotations areas s =
     (list_all (\<lambda>a. nonneg_opt (segmentDuration a) \<and> nonneg_opt (pauseDuration a)) annotations
      \<and> list_all (\<lambda>a. nonneg_opt (appearDuration a)) areas
      \<and> nonneg (defaultSegmentDuration s) \<and> nonneg (defaultPauseDuration s)
      \<and> nonneg (defaultAreaDuration s))"

fun item_nonneg :: "item \<Rightarrow> bool" where
  "item_nonneg (AnnotationItem a) = (nonneg_opt (segmentDuration a) \<and> nonneg_opt (pauseDuration a))"
| "item_nonneg (AreaItem a) = nonneg_opt (appearDuration a)"

definition defaults_nonneg :: "settings \<Rightarrow> bool" where
  "defaults_nonneg s =
     (nonneg (defaultSegmentDuration s) \<and> nonneg (defaultPauseDuration s)
      \<and> nonneg (defaultAreaDuration s))"

definition event_nonneg :: "event \<Rightarrow> bool" where
  "event_nonneg e =
     (nonneg (startTime e) \<and> nonneg (duration e) \<and> nonneg (startDist e) \<and> nonneg (endDist e))"

definition state_ok :: "builder_state \<Rightarrow> bool" where
  "state_ok st =
     (nonneg (timeCursor st) \<and> nonneg (distCursor st)
      \<and> list_all (\<lambda>e. event_nonneg e \<and> isPassed (timeCursor st) e) (sched st))"

section \<open>Metrics Provider: proofs\<close>

lemma cumulative_0: "cumulative points 0 = 0"
  by (simp add: cumulative_def)

lemma cumulative_Suc:
  "cumulative points (Suc i) = cumulative points i + dist_pt (points ! i) (points ! Suc i)"
  by (simp add: cumulative_def)

lemma pathData_loop_inv:
  assumes "totalLength acc = cumulative points i"
    and "pointDistances acc = map (cumulative points) [0..<Suc i]"
  shows "totalLength (pathData_loop points i acc) = cumulative points (max i (length points - 1))
       \<and> pointDistances (pathData_loop points i acc)
           = map (cumulative points) [0..<Suc (max i (length points - 1))]"
  using assms
proof (induction points i acc rule: pathData_loop.induct)
  case (1 points i acc)
  show ?case
  proof (cases "int i < int (length points) - 1")
    case True
    let ?d = "dist_pt (points ! i) (points ! (i + 1))"
    let ?acc = "\<lparr>totalLength = totalLength acc + ?d,
                 segmentLengths = segmentLengths acc @ [?d],
                 pointDistances = pointDistances acc @ [totalLength acc + ?d]\<rparr>"
    have t: "totalLength ?acc = cumulative points (i + 1)"
      using "1.prems"(1) by (simp add: cumulative_Suc)
    have p: "pointDistances ?acc = map (cumulative points) [0..<Suc (i + 1)]"
      using "1.prems" by (simp add: cumulative_Suc)
    have m: "max (i + 1) (length points - 1) = max i (length points - 1)"
      using True by linarith
    have "pathData_loop points i acc = pathData_loop points (i + 1) ?acc"
      using True by (subst pathData_loop.simps) (simp add: Let_def)
    with "1.IH" [OF True refl refl t p] m show ?thesis
      by simp
  next
    case False
    then have m: "max i (length points - 1) = i"
      by linarith
    have "pathData_loop points i acc = acc"
      using False by (subst pathData_loop.simps) simp
    with "1.prems" m show ?thesis
      by simp
  qed
qed

lemma pointDistances_pathData:
  "pointDistances (pathData points) = map (cumulative points) [0..<Suc (length points - 1)]"
  using pathData_loop_inv [of "\<lparr>totalLength = 0, segmentLengths = [], pointDistances = [0]\<rparr>" points 0]
  by (simp add: pathData_def cumulative_0)

lemma totalLength_pathData:
  "totalLength (pathData points) = cumulative points (length points - 1)"
  using pathData_loop_inv [of "\<lparr>totalLength = 0, segmentLengths = [], pointDistances = [0]\<rparr>" points 0]
  by (simp add: pathData_def cumulative_0)

lemma length_pointDistances:
  "length (pointDistances (pathData points)) = max 1 (length points)"
  by (simp add: pointDistances_pathData)

lemma nth_pointDistances:
  "i < max 1 (length points) \<Longrightarrow> pointDistances (pathData points) ! i = cumulative points i"
proof -
  assume "i < max 1 (length points)"
  then have "i < Suc (length points - 1)" by linarith
  then show ?thesis
    unfolding pointDistances_pathData by (simp only: nth_map_upt add_0 Nat.add_0_right diff_zero)
qed

lemma sqrt_100: "sqrt 100 = 10"
  by (rule real_sqrt_unique) simp_all

lemma sqrt_25: "sqrt 25 = 5"
  by (rule real_sqrt_unique) simp_all

lemma sqrt_169: "sqrt 169 = 13"
  by (rule real_sqrt_unique) simp_all

text \<open>
  Claim C8. For every waypoint sequence: entry 0 of \<open>pointDistances\<close> is 0, there is one
  entry for each waypoint (and one entry for an empty sequence), entry \<open>i\<close> is the sum,
  over the segments \<open>k < i\<close>, of the Euclidean distance
  \<open>sqrt ((x\<^sub>k\<^sub>+\<^sub>1 - x\<^sub>k)\<^sup>2 + (y\<^sub>k\<^sub>+\<^sub>1 - y\<^sub>k)\<^sup>2)\<close> between waypoint \<open>k\<close> and waypoint \<open>k + 1\<close>, and
  \<open>totalLength\<close> is the last entry. With zero or one waypoint, \<open>totalLength\<close> is 0 and
  \<open>pointDistances\<close> is \<open>[0]\<close>.
\<close>

theorem C8_metrics:
  "pointDistances (pathData points) ! 0 = 0
   \<and> length (pointDistances (pathData points)) = max 1 (length points)
   \<and> (\<forall>i < length points.
         pointDistances (pathData points) ! i =
           (\<Sum>k<i. sqrt ((px (points ! Suc k) - px (points ! k))\<^sup>2
                        + (py (points ! Suc k) - py (points ! k))\<^sup>2)))
   \<and> totalLength (pathData points) = last (pointDistances (pathData points))
   \<and> (length points \<le> 1 \<longrightarrow>
        totalLength (pathData points) = 0 \<and> pointDistances (pathData points) = [0])"
proof -
  have a: "pointDistances (pathData points) ! 0 = 0"
    using nth_pointDistances [of 0 points] by (simp add: cumulative_0)
  have b: "\<forall>i < length points.
         pointDistances (pathData points) ! i =
           (\<Sum>k<i. sqrt ((px (points ! Suc k) - px (points ! k))\<^sup>2
                        + (py (points ! Suc k) - py (points ! k))\<^sup>2))"
    by (simp add: nth_pointDistances cumulative_def dist_pt_def)
  have c: "totalLength (pathData points) = last (pointDistances (pathData points))"
    unfolding pointDistances_pathData totalLength_pathData
    by (simp add: last_map del: upt_Suc)
  have d: "length points \<le> 1 \<longrightarrow>
        totalLength (pathData points) = 0 \<and> pointDistances (pathData points) = [0]"
  proof
    assume "length points \<le> 1"
    then have "length points - 1 = 0" by simp
    then show "totalLength (pathData points) = 0 \<and> pointDistances (pathData points) = [0]"
      by (simp add: pointDistances_pathData totalLength_pathData cumulative_0)
  qed
  from a b c d length_pointDistances show ?thesis by blast
qed

theorem C8_metrics_witness:
  "pointDistances (pathData slanted_points) ! 1 = 5
   \<and> pointDistances (pathData slanted_points) ! 2 = 18
   \<and> totalLength (pathData [\<lparr>px = 3, py = 4\<rparr>]) = 0
   \<and> pointDistances (pathData [\<lparr>px = 3, py = 4\<rparr>]) = [0]"
proof -
  note c = C8_metrics [of slanted_points]
  have "(1::nat) < length slanted_points" by simp
  with c have "pointDistances (pathData slanted_points) ! 1 =
      (\<Sum>k<1. sqrt ((px (slanted_points ! Suc k) - px (slanted_points ! k))\<^sup>2
                   + (py (slanted_points ! Suc k) - py (slanted_points ! k))\<^sup>2))"
    by blast
  then have p1: "pointDistances (pathData slanted_points) ! 1 = 5"
    by (simp add: sqrt_25)
  have "(2::nat) < length slanted_points" by simp
  with c have "pointDistances (pathData slanted_points) ! 2 =
      (\<Sum>k<2. sqrt ((px (slanted_points ! Suc k) - px (slanted_points ! k))\<^sup>2
                   + (py (slanted_points ! Suc k) - py (slanted_points ! k))\<^sup>2))"
    by blast
  then have p2: "pointDistances (pathData slanted_points) ! 2 = 18"
    by (simp add: sqrt_25 sqrt_169 numeral_2_eq_2)
  have "totalLength (pathData [\<lparr>px = 3, py = 4\<rparr>]) = 0
   \<and> pointDistances (pathData [\<lparr>px = 3, py = 4\<rparr>]) = [0]"
    using C8_metrics [of "[\<lparr>px = 3, py = 4\<rparr>]"] by simp
  with p1 p2 show ?thesis by simp
qed

section \<open>Evaluation of concrete inputs\<close>

lemmas builder_defs = timeline_def run_items_def init_state_def sorted_items_def
  draw_segment_def wait_label_def finish_tail_def segmentDist_def remainingDist_def
  nullish_def num_at_def jgt_def jge_def Let_def

lemmas resolver_defs = getAnimationState_def isActive_def isPassed_def pushed_ids_def
  pushed_id_def pushed_active_def interpolate_def jgt_def jge_def Let_def

lemma pathData_boundary:
  "pointDistances (pathData boundary_points) = [0, 10, 20]"
  "totalLength (pathData boundary_points) = 20"
  by (simp_all add: pointDistances_pathData totalLength_pathData cumulative_def dist_pt_def
      sqrt_100 numeral_2_eq_2)

lemma pathData_square:
  "pointDistances (pathData square_points) = [0, 10, 20, 30]"
  "totalLength (pathData square_points) = 30"
  by (simp_all add: pointDistances_pathData totalLength_pathData cumulative_def dist_pt_def
      sqrt_100 eval_nat_numeral)

lemma timeline_boundary:
  "timeline boundary_points [boundary_annotation aid ord] [] (boundary_settings s)
     = \<lparr>schedule =
          [\<lparr>etype = Draw, startTime = Fin 0, duration = Fin 2, startDist = Fin 0,
            endDist = Fin 10, itemId = None\<rparr>,
           \<lparr>etype = Wait, startTime = Fin 2, duration = Fin 1, startDist = Fin 10,
            endDist = Fin 10, itemId = Some aid\<rparr>,
           \<lparr>etype = Draw, startTime = Fin 3, duration = Fin 3, startDist = Fin 10,
            endDist = Fin 20, itemId = None\<rparr>],
         totalDuration = Fin 6\<rparr>"
  by (simp add: builder_defs pathData_boundary)

text \<open>
  Claim C2. Three waypoints (0,0), (10,0), (10,10), one annotation at \<open>pathIndex = 1\<close> with
  \<open>segmentDuration = 2\<close> and \<open>pauseDuration = 1\<close>, the default segment duration 3 and
  the flash disabled (every other setting, the order key and the non-empty id are
  arbitrary). The builder produces exactly draw (start 0, duration 2, distance 0 to 10),
  wait (start 2, duration 1, distance 10), draw (start 3, duration 3, distance 10 to 20)
  with \<open>totalDuration = 6\<close>; the resolver returns distance 5 and no ids at time 1,
  distance 10 and the annotation's id at time 2.5, and distance 50/3 at time 5.
\<close>

theorem C2_boundary_scenario:
  assumes "aid \<noteq> []"
  shows "timeline boundary_points [boundary_annotation aid ord] [] (boundary_settings s)
     = \<lparr>schedule =
          [\<lparr>etype = Draw, startTime = Fin 0, duration = Fin 2, startDist = Fin 0,
            endDist = Fin 10, itemId = None\<rparr>,
           \<lparr>etype = Wait, startTime = Fin 2, duration = Fin 1, startDist = Fin 10,
            endDist = Fin 10, itemId = Some aid\<rparr>,
           \<lparr>etype = Draw, startTime = Fin 3, duration = Fin 3, startDist = Fin 10,
            endDist = Fin 20, itemId = None\<rparr>],
         totalDuration = Fin 6\<rparr>
    \<and> getAnimationState (boundary_settings s)
         (timeline boundary_points [boundary_annotation aid ord] [] (boundary_settings s))
         (pathData boundary_points) (Fin 1)
        = \<lparr>currentDistance = Fin 5, activeAnnotationIds = [], visibleAreaIds = [],
           isFlashing = False\<rparr>
    \<and> getAnimationState (boundary_settings s)
         (timeline boundary_points [boundary_annotation aid ord] [] (boundary_settings s))
         (pathData boundary_points) (Fin 2.5)
        = \<lparr>currentDistance = Fin 10, activeAnnotationIds = [aid], visibleAreaIds = [],
           isFlashing = False\<rparr>
    \<and> getAnimationState (boundary_settings s)
         (timeline boundary_points [boundary_annotation aid ord] [] (boundary_settings s))
         (pathData boundary_points) (Fin 5)
        = \<lparr>currentDistance = Fin (50 / 3), activeAnnotationIds = [aid], visibleAreaIds = [],
           isFlashing = False\<rparr>"
  unfolding timeline_boundary using assms
  by (simp add: resolver_defs pathData_boundary)

theorem C2_boundary_scenario_witness:
  "''a1'' \<noteq> []
   \<and> totalDuration (timeline boundary_points [boundary_annotation ''a1'' 1] []
        (boundary_settings app_settings)) = Fin 6
   \<and> activeAnnotationIds (getAnimationState (boundary_settings app_settings)
         (timeline boundary_points [boundary_annotation ''a1'' 1] []
            (boundary_settings app_settings))
         (pathData boundary_points) (Fin 2.5)) = [''a1'']"
proof -
  have h: "''a1'' \<noteq> []" by simp
  note c = C2_boundary_scenario [OF h, of 1 app_settings]
  from c have "totalDuration (timeline boundary_points [boundary_annotation ''a1'' 1] []
        (boundary_settings app_settings)) = Fin 6"
    by (metis timeline_t.select_convs(2))
  moreover from c have "activeAnnotationIds (getAnimationState (boundary_settings app_settings)
         (timeline boundary_points [boundary_annotation ''a1'' 1] []
            (boundary_settings app_settings))
         (pathData boundary_points) (Fin 2.5)) = [''a1'']"
    by (metis animation_state.select_convs(2))
  ultimately show ?thesis using h by blast
qed

section \<open>The active event\<close>

lemma isActive_Fin:
  "isActive t e \<Longrightarrow> \<exists>t' s0 d. t = Fin t' \<and> startTime e = Fin s0 \<and> duration e = Fin d
       \<and> s0 \<le> t' \<and> t' < s0 + d"
  by (cases t; cases "startTime e"; cases "duration e") (simp_all add: isActive_def jge_def)

lemma find_isActive: "find (isActive t) es = Some e \<Longrightarrow> isActive t e"
  by (auto simp: find_Some_iff)

text \<open>
  Claim C4. For every settings, timeline, path data and elapsed time, the distance
  returned by \<^verbatim>\<open>getAnimationState\<close> is obtained as follows. During the flash and
  before time 0 it is 0. Without an active event it is \<open>totalLength\<close> or 0, and nothing is
  divided. With an active event \<open>e\<close>, the effective time \<open>t\<close>, the start \<open>s0\<close> and the
  duration \<open>d\<close> of \<open>e\<close> are finite numbers with \<open>s0 \<le> t < s0 + d\<close>, hence \<open>0 < d\<close>: the
  distance is \<open>startDist + (endDist - startDist) * ((t - s0) / d)\<close> for a draw event, a
  quotient with a positive divisor, and \<open>startDist\<close> otherwise. So the resolver divides by
  the duration of the active event only, and that duration is greater than 0. An event of
  duration 0 never satisfies \<open>startTime \<le> effectiveTime < startTime + duration\<close> and is
  never the active event of any schedule; from its start time on it counts as passed
  (completed at once).
\<close>

theorem C4_no_division_by_zero:
  "(let effectiveTime = (if enableFlash s then jsub time (flashDuration s) else time);
        r = getAnimationState s tline pd time
    in if (enableFlash s \<and> jlt time (flashDuration s)) \<or> jlt effectiveTime (Fin 0)
       then currentDistance r = Fin 0
       else (case find (isActive effectiveTime) (schedule tline) of
               None \<Rightarrow>
                 currentDistance r =
                   (if jge effectiveTime (totalDuration tline) then Fin (totalLength pd)
                    else Fin 0)
             | Some a \<Rightarrow>
                 (\<exists>t' s0 d. effectiveTime = Fin t' \<and> startTime a = Fin s0 \<and> duration a = Fin d
                    \<and> 0 < d \<and> s0 \<le> t' \<and> t' < s0 + d
                    \<and> currentDistance r =
                        (if etype a = Draw
                         then jadd (startDist a)
                                (jmul (jsub (endDist a) (startDist a)) (Fin ((t' - s0) / d)))
                         else startDist a))))
   \<and> (find (isActive t) es = Some e \<longrightarrow>
      (\<exists>d. duration e = Fin d \<and> 0 < d)
      \<and> (\<exists>p. jdiv (jsub t (startTime e)) (duration e) = Fin p \<and> 0 \<le> p \<and> p < 1
             \<and> interpolate t e
                 = jadd (startDist e) (jmul (jsub (endDist e) (startDist e)) (Fin p))))
   \<and> (duration e = Fin 0 \<longrightarrow> \<not> isActive t e \<and> find (isActive t) es \<noteq> Some e)
   \<and> (duration e = Fin 0 \<and> jge t (startTime e) \<longrightarrow> isPassed t e)"
proof -
  let ?eff = "if enableFlash s then jsub time (flashDuration s) else time"
  let ?r = "getAnimationState s tline pd time"
  have a: "(\<exists>d. duration e = Fin d \<and> 0 < d)
      \<and> (\<exists>p. jdiv (jsub t (startTime e)) (duration e) = Fin p \<and> 0 \<le> p \<and> p < 1
             \<and> interpolate t e
                 = jadd (startDist e) (jmul (jsub (endDist e) (startDist e)) (Fin p)))"
    if "isActive t e" for e
  proof -
    from isActive_Fin [OF that] obtain t' s0 d where
      h: "t = Fin t'" "startTime e = Fin s0" "duration e = Fin d" "s0 \<le> t'" "t' < s0 + d"
      by blast
    then have d: "0 < d" by simp
    have "0 \<le> (t' - s0) / d" using h d by simp
    moreover have "(t' - s0) / d < 1" using h d by simp
    ultimately show ?thesis using h d by (simp add: interpolate_def)
  qed
  have b: "\<not> isActive t e" if "duration e = Fin 0"
    using a [of e] that by auto
  have c: "isPassed t e" if "duration e = Fin 0" "jge t (startTime e)"
    using that by (cases t; cases "startTime e") (simp_all add: isPassed_def jge_def)
  have f: "currentDistance ?r = Fin 0"
    if "(enableFlash s \<and> jlt time (flashDuration s)) \<or> jlt ?eff (Fin 0)"
  proof (cases "enableFlash s \<and> jlt time (flashDuration s)")
    case True
    show ?thesis
      unfolding getAnimationState_def Let_def
      by (simp only: True simp_thms if_True animation_state.select_convs)
  next
    case False
    with that have "jlt ?eff (Fin 0)" by blast
    then show ?thesis
      unfolding getAnimationState_def Let_def
      by (simp only: False if_False if_True animation_state.select_convs)
  qed
  have n: "currentDistance ?r =
             (if jge ?eff (totalDuration tline) then Fin (totalLength pd) else Fin 0)"
    if nf: "\<not> ((enableFlash s \<and> jlt time (flashDuration s)) \<or> jlt ?eff (Fin 0))"
      and fa: "find (isActive ?eff) (schedule tline) = None"
  proof -
    from nf have n1: "\<not> (enableFlash s \<and> jlt time (flashDuration s))"
      and n2: "\<not> jlt ?eff (Fin 0)" by blast+
    show ?thesis
      unfolding getAnimationState_def Let_def
      by (simp only: n1 n2 fa if_False option.case animation_state.select_convs)
  qed
  have g: "\<exists>t' s0 d. ?eff = Fin t' \<and> startTime a = Fin s0 \<and> duration a = Fin d
                    \<and> 0 < d \<and> s0 \<le> t' \<and> t' < s0 + d
                    \<and> currentDistance ?r =
                        (if etype a = Draw
                         then jadd (startDist a)
                                (jmul (jsub (endDist a) (startDist a)) (Fin ((t' - s0) / d)))
                         else startDist a)"
    if nf: "\<not> ((enableFlash s \<and> jlt time (flashDuration s)) \<or> jlt ?eff (Fin 0))"
      and fa: "find (isActive ?eff) (schedule tline) = Some a" for a
  proof -
    from isActive_Fin [OF find_isActive [OF fa]] obtain t' s0 d where
      h: "?eff = Fin t'" "startTime a = Fin s0" "duration a = Fin d" "s0 \<le> t'" "t' < s0 + d"
      by blast
    then have d: "0 < d" by simp
    from nf have n1: "\<not> (enableFlash s \<and> jlt time (flashDuration s))"
      and n2: "\<not> jlt ?eff (Fin 0)" by blast+
    have cd: "currentDistance ?r = (if etype a = Draw then interpolate ?eff a else startDist a)"
      unfolding getAnimationState_def Let_def
      by (simp only: n1 n2 fa if_False option.case animation_state.select_convs)
    have "interpolate ?eff a
            = jadd (startDist a) (jmul (jsub (endDist a) (startDist a)) (Fin ((t' - s0) / d)))"
      unfolding interpolate_def Let_def h(1) using h(2,3) d by simp
    with cd h d show ?thesis by auto
  qed
  have r: "(let effectiveTime = ?eff; r = ?r
    in if (enableFlash s \<and> jlt time (flashDuration s)) \<or> jlt effectiveTime (Fin 0)
       then currentDistance r = Fin 0
       else (case find (isActive effectiveTime) (schedule tline) of
               None \<Rightarrow>
                 currentDistance r =
                   (if jge effectiveTime (totalDuration tline) then Fin (totalLength pd)
                    else Fin 0)
             | Some a \<Rightarrow>
                 (\<exists>t' s0 d. effectiveTime = Fin t' \<and> startTime a = Fin s0 \<and> duration a = Fin d
                    \<and> 0 < d \<and> s0 \<le> t' \<and> t' < s0 + d
                    \<and> currentDistance r =
                        (if etype a = Draw
                         then jadd (startDist a)
                                (jmul (jsub (endDist a) (startDist a)) (Fin ((t' - s0) / d)))
                         else startDist a))))"
  proof (cases "(enableFlash s \<and> jlt time (flashDuration s)) \<or> jlt ?eff (Fin 0)")
    case True
    with f show ?thesis by (simp only: Let_def if_True)
  next
    case False
    show ?thesis
    proof (cases "find (isActive ?eff) (schedule tline)")
      case None
      with n [OF False] False show ?thesis by (simp only: Let_def if_False option.case)
    next
      case (Some a)
      with g [OF False] False show ?thesis by (simp only: Let_def if_False option.case)
    qed
  qed
  from r a b c find_isActive [of t es e] show ?thesis by blast
qed

theorem C4_no_division_by_zero_witness:
  "currentDistance (getAnimationState app_settings
      \<lparr>schedule = [\<lparr>etype = Draw, startTime = Fin 0, duration = Fin 2, startDist = Fin 0,
                     endDist = Fin 10, itemId = None\<rparr>],
       totalDuration = Fin 2\<rparr> (pathData boundary_points) (Fin 1)) = Fin 5
   \<and> find (isActive (Fin 1))
     [\<lparr>etype = Draw, startTime = Fin 0, duration = Fin 2, startDist = Fin 0,
       endDist = Fin 10, itemId = None\<rparr>]
     = Some \<lparr>etype = Draw, startTime = Fin 0, duration = Fin 2, startDist = Fin 0,
             endDist = Fin 10, itemId = None\<rparr>
   \<and> (\<exists>p. jdiv (jsub (Fin 1) (Fin 0)) (Fin 2) = Fin p \<and> 0 \<le> p \<and> p < 1)
   \<and> \<not> isActive (Fin 3)
        \<lparr>etype = Draw, startTime = Fin 3, duration = Fin 0, startDist = Fin 0,
          endDist = Fin 0, itemId = None\<rparr>
   \<and> isPassed (Fin 3)
        \<lparr>etype = Draw, startTime = Fin 3, duration = Fin 0, startDist = Fin 0,
          endDist = Fin 0, itemId = None\<rparr>"
proof -
  let ?e = "\<lparr>etype = Draw, startTime = Fin 0, duration = Fin 2, startDist = Fin 0,
       endDist = Fin 10, itemId = None\<rparr>"
  let ?z = "\<lparr>etype = Draw, startTime = Fin 3, duration = Fin 0, startDist = Fin 0,
          endDist = Fin 0, itemId = None\<rparr>"
  let ?tl = "\<lparr>schedule = [?e], totalDuration = Fin 2\<rparr>"
  have f: "find (isActive (Fin 1)) [?e] = Some ?e"
    by (simp add: isActive_def jge_def)
  have z: "duration ?z = Fin 0" "jge (Fin 3) (startTime ?z)"
    by (simp_all add: jge_def)
  note c = C4_no_division_by_zero [of app_settings "Fin 1" ?tl "pathData boundary_points"
      "Fin 1" "[?e]" ?e]
  from c have "let effectiveTime = (if enableFlash app_settings
                  then jsub (Fin 1) (flashDuration app_settings) else Fin 1);
        r = getAnimationState app_settings ?tl (pathData boundary_points) (Fin 1)
    in if (enableFlash app_settings \<and> jlt (Fin 1) (flashDuration app_settings))
           \<or> jlt effectiveTime (Fin 0)
       then currentDistance r = Fin 0
       else (case find (isActive effectiveTime) (schedule ?tl) of
               None \<Rightarrow>
                 currentDistance r =
                   (if jge effectiveTime (totalDuration ?tl)
                    then Fin (totalLength (pathData boundary_points)) else Fin 0)
             | Some a \<Rightarrow>
                 (\<exists>t' s0 d. effectiveTime = Fin t' \<and> startTime a = Fin s0 \<and> duration a = Fin d
                    \<and> 0 < d \<and> s0 \<le> t' \<and> t' < s0 + d
                    \<and> currentDistance r =
                        (if etype a = Draw
                         then jadd (startDist a)
                                (jmul (jsub (endDist a) (startDist a)) (Fin ((t' - s0) / d)))
                         else startDist a)))"
    by (rule conjunct1)
  then have r: "currentDistance (getAnimationState app_settings ?tl
      (pathData boundary_points) (Fin 1)) = Fin 5"
    using f by (auto simp: Let_def app_settings_def)
  from f c
  have "\<exists>p. jdiv (jsub (Fin 1) (Fin 0)) (Fin 2) = Fin p \<and> 0 \<le> p \<and> p < 1"
    by auto
  moreover from z C4_no_division_by_zero [of app_settings "Fin 1" ?tl
      "pathData boundary_points" "Fin 3" "[?z]" ?z]
  have "\<not> isActive (Fin 3) ?z \<and> isPassed (Fin 3) ?z"
    by blast
  ultimately show ?thesis using f r by blast
qed

text \<open>
  Claim C10. With the flash disabled the animation state does not depend on
  \<open>flashDuration\<close>: for every schedule and every elapsed time, two settings that differ
  only in \<open>flashDuration\<close> give the same state (distance, annotation ids, area ids), and
  \<open>isFlashing\<close> is false.
\<close>

theorem C10_flash_duration_noninterference:
  "\<not> enableFlash s \<Longrightarrow>
     getAnimationState (s\<lparr>flashDuration := d1\<rparr>) tline pd time
       = getAnimationState (s\<lparr>flashDuration := d2\<rparr>) tline pd time
     \<and> isFlashing (getAnimationState (s\<lparr>flashDuration := d1\<rparr>) tline pd time) = False"
  by (simp add: getAnimationState_def Let_def)

theorem C10_flash_duration_noninterference_witness:
  "\<not> enableFlash app_settings
   \<and> getAnimationState (app_settings\<lparr>flashDuration := Fin 0.5\<rparr>)
        (timeline boundary_points [boundary_annotation ''a1'' 1] [] app_settings)
        (pathData boundary_points) (Fin 0.3)
     = getAnimationState (app_settings\<lparr>flashDuration := Fin 2\<rparr>)
        (timeline boundary_points [boundary_annotation ''a1'' 1] [] app_settings)
        (pathData boundary_points) (Fin 0.3)
   \<and> isFlashing (getAnimationState (app_settings\<lparr>flashDuration := Fin 0.5\<rparr>)
        (timeline boundary_points [boundary_annotation ''a1'' 1] [] app_settings)
        (pathData boundary_points) (Fin 0.3)) = False"
proof -
  have h: "\<not> enableFlash app_settings" by (simp add: app_settings_def)
  show ?thesis
    using h C10_flash_duration_noninterference [OF h] by simp
qed

section \<open>The builder: the schedule only grows\<close>

lemma jadd_Fin_0 [simp]: "jadd (Fin 0) a = a"
  by (cases a) simp_all

lemma num_at_pointDistances_0: "num_at (pointDistances (pathData points)) 0 = Fin 0"
  using nth_pointDistances [of 0 points]
  by (simp add: num_at_def length_pointDistances cumulative_0)

lemma num_at_negative: "i < 0 \<Longrightarrow> num_at xs i = NaN"
  by (simp add: num_at_def)

lemma sched_draw_segment: "\<exists>es. sched (draw_segment pd s st ann) = sched st @ es"
  by (simp add: draw_segment_def Let_def)

lemma sched_step: "\<exists>es. sched (step pd s st it) = sched st @ es"
proof (cases it)
  case (AnnotationItem ann)
  from sched_draw_segment [of pd s st ann] obtain es
    where "sched (draw_segment pd s st ann) = sched st @ es" by blast
  with AnnotationItem show ?thesis by (simp add: wait_label_def Let_def)
next
  case (AreaItem ar)
  then show ?thesis by (simp add: Let_def)
qed

lemma run_items_Nil: "run_items pd s st [] = st"
  by (simp add: run_items_def)

lemma run_items_Cons: "run_items pd s st (it # items) = run_items pd s (step pd s st it) items"
  by (simp add: run_items_def)

lemma run_items_append:
  "run_items pd s st (xs @ ys) = run_items pd s (run_items pd s st xs) ys"
  by (simp add: run_items_def)

lemma sched_run_items: "\<exists>es. sched (run_items pd s st items) = sched st @ es"
proof (induction items arbitrary: st)
  case Nil
  then show ?case by (simp add: run_items_Nil)
next
  case (Cons it items)
  from Cons.IH [of "step pd s st it"] obtain es
    where "sched (run_items pd s (step pd s st it) items) = sched (step pd s st it) @ es"
    by blast
  moreover from sched_step [of pd s st it] obtain es'
    where "sched (step pd s st it) = sched st @ es'" by blast
  ultimately show ?case by (simp add: run_items_Cons)
qed

lemma sched_finish_tail: "\<exists>es. sched (finish_tail points pd s st) = sched st @ es"
  by (simp add: finish_tail_def Let_def)

text \<open>
  The guard \<^verbatim>\<open>points.length > 0\<close> of the tail is implied by the two other
  conditions: without waypoints an index below \<open>-1\<close> reads \<^verbatim>\<open>undefined\<close>, and the
  remaining distance is \<open>NaN\<close>.
\<close>

lemma finish_tail_cases:
  "finish_tail points pd s st =
     (if currentPointIdx st < int (length points) - 1 \<and> jgt (remainingDist pd st) (Fin 0.1)
      then st\<lparr>sched := sched st @
                 [\<lparr>etype = Draw, startTime = timeCursor st, duration = defaultSegmentDuration s,
                   startDist = distCursor st,
                   endDist = jadd (distCursor st) (remainingDist pd st), itemId = None\<rparr>],
               timeCursor := jadd (timeCursor st) (defaultSegmentDuration s)\<rparr>
      else st)"
proof (cases "length points > 0")
  case True
  then show ?thesis by (simp add: finish_tail_def Let_def)
next
  case False
  then have "currentPointIdx st < int (length points) - 1 \<Longrightarrow> remainingDist pd st = NaN"
    by (simp add: remainingDist_def num_at_negative)
  with False show ?thesis by (auto simp add: finish_tail_def Let_def jgt_def)
qed

text \<open>
  Claim C9. Without items, with at least two waypoints and a path longer than 0.1, the
  schedule is the single trailing draw event from distance 0 to \<open>totalLength\<close>, lasting
  the default segment duration, which is also \<open>totalDuration\<close>. In general, with \<open>st\<close>
  the state after all items and \<open>i\<close> its waypoint index: the trailing draw event, from the
  distance cursor over the distance \<open>totalLength - pointDistances[i]\<close> and lasting the
  default segment duration, is appended (and the time cursor advanced by that duration)
  if and only if \<open>i < points.length - 1\<close> and \<open>totalLength - pointDistances[i]\<close> exceeds
  0.1, where a negative \<open>i\<close> reads no entry and the difference, \<open>NaN\<close>, exceeds nothing;
  otherwise the schedule and \<open>totalDuration\<close> are those of \<open>st\<close>.
\<close>

theorem C9_trailing_draw:
  "(2 \<le> length points \<and> 0.1 < totalLength (pathData points) \<longrightarrow>
      timeline points [] [] s =
        \<lparr>schedule = [\<lparr>etype = Draw, startTime = Fin 0, duration = defaultSegmentDuration s,
                      startDist = Fin 0, endDist = Fin (totalLength (pathData points)),
                      itemId = None\<rparr>],
         totalDuration = defaultSegmentDuration s\<rparr>)
   \<and> (let pd = pathData points;
           st = run_items pd s init_state (sorted_items annotations areas);
           i = currentPointIdx st
       in if 0 \<le> i \<and> i < int (length points) - 1
             \<and> 0.1 < totalLength pd - pointDistances pd ! nat i
          then schedule (timeline points annotations areas s) =
                 sched st @
                 [\<lparr>etype = Draw, startTime = timeCursor st, duration = defaultSegmentDuration s,
                   startDist = distCursor st,
                   endDist = jadd (distCursor st)
                               (Fin (totalLength pd - pointDistances pd ! nat i)),
                   itemId = None\<rparr>]
               \<and> totalDuration (timeline points annotations areas s) =
                   jadd (timeCursor st) (defaultSegmentDuration s)
          else schedule (timeline points annotations areas s) = sched st
               \<and> totalDuration (timeline points annotations areas s) = timeCursor st)"
proof -
  have a: "timeline points [] [] s =
        \<lparr>schedule = [\<lparr>etype = Draw, startTime = Fin 0, duration = defaultSegmentDuration s,
                      startDist = Fin 0, endDist = Fin (totalLength (pathData points)),
                      itemId = None\<rparr>],
         totalDuration = defaultSegmentDuration s\<rparr>"
    if "2 \<le> length points" "0.1 < totalLength (pathData points)"
  proof -
    have r: "remainingDist (pathData points) init_state = Fin (totalLength (pathData points))"
      by (simp add: remainingDist_def init_state_def num_at_pointDistances_0)
    have i: "currentPointIdx init_state < int (length points) - 1"
      using that by (simp add: init_state_def)
    have g: "jgt (remainingDist (pathData points) init_state) (Fin 0.1)"
      using that by (simp add: r jgt_def)
    have "finish_tail points (pathData points) s init_state =
       init_state\<lparr>sched := sched init_state @
                 [\<lparr>etype = Draw, startTime = timeCursor init_state,
                   duration = defaultSegmentDuration s, startDist = distCursor init_state,
                   endDist = jadd (distCursor init_state)
                     (remainingDist (pathData points) init_state), itemId = None\<rparr>],
               timeCursor := jadd (timeCursor init_state) (defaultSegmentDuration s)\<rparr>"
      using i g by (simp only: finish_tail_cases if_True simp_thms)
    then show ?thesis
      by (simp add: timeline_def sorted_items_def run_items_def r) (simp add: init_state_def)
  qed
  let ?pd = "pathData points"
  let ?st = "run_items ?pd s init_state (sorted_items annotations areas)"
  let ?i = "currentPointIdx ?st"
  let ?c = "0 \<le> ?i \<and> ?i < int (length points) - 1
             \<and> 0.1 < totalLength ?pd - pointDistances ?pd ! nat ?i"
  have in_range: "remainingDist ?pd ?st
                    = Fin (totalLength ?pd - pointDistances ?pd ! nat ?i)"
    if "0 \<le> ?i" "?i < int (length points) - 1"
    using that by (simp add: remainingDist_def num_at_def length_pointDistances)
  have negative: "remainingDist ?pd ?st = NaN" if "?i < 0"
    using that by (simp add: remainingDist_def num_at_negative)
  have t: "timeline points annotations areas s
             = \<lparr>schedule = sched (finish_tail points ?pd s ?st),
                totalDuration = timeCursor (finish_tail points ?pd s ?st)\<rparr>"
    by (simp add: timeline_def Let_def)
  have b: "if ?c
          then schedule (timeline points annotations areas s) =
                 sched ?st @
                 [\<lparr>etype = Draw, startTime = timeCursor ?st, duration = defaultSegmentDuration s,
                   startDist = distCursor ?st,
                   endDist = jadd (distCursor ?st)
                               (Fin (totalLength ?pd - pointDistances ?pd ! nat ?i)),
                   itemId = None\<rparr>]
               \<and> totalDuration (timeline points annotations areas s) =
                   jadd (timeCursor ?st) (defaultSegmentDuration s)
          else schedule (timeline points annotations areas s) = sched ?st
               \<and> totalDuration (timeline points annotations areas s) = timeCursor ?st"
  proof (cases ?c)
    case True
    then have r: "remainingDist ?pd ?st
                    = Fin (totalLength ?pd - pointDistances ?pd ! nat ?i)"
      by (intro in_range) simp_all
    with True have "?i < int (length points) - 1 \<and> jgt (remainingDist ?pd ?st) (Fin 0.1)"
      by (simp add: jgt_def)
    then have "finish_tail points ?pd s ?st =
       ?st\<lparr>sched := sched ?st @
                 [\<lparr>etype = Draw, startTime = timeCursor ?st,
                   duration = defaultSegmentDuration s, startDist = distCursor ?st,
                   endDist = jadd (distCursor ?st) (remainingDist ?pd ?st), itemId = None\<rparr>],
               timeCursor := jadd (timeCursor ?st) (defaultSegmentDuration s)\<rparr>"
      by (simp only: finish_tail_cases if_True simp_thms)
    with t r have "schedule (timeline points annotations areas s) =
                 sched ?st @
                 [\<lparr>etype = Draw, startTime = timeCursor ?st, duration = defaultSegmentDuration s,
                   startDist = distCursor ?st,
                   endDist = jadd (distCursor ?st)
                               (Fin (totalLength ?pd - pointDistances ?pd ! nat ?i)),
                   itemId = None\<rparr>]
               \<and> totalDuration (timeline points annotations areas s) =
                   jadd (timeCursor ?st) (defaultSegmentDuration s)"
      by simp
    with True show ?thesis by (simp only: simp_thms if_True)
  next
    case False
    have "\<not> (?i < int (length points) - 1 \<and> jgt (remainingDist ?pd ?st) (Fin 0.1))"
    proof (cases "?i < 0")
      case True
      then show ?thesis by (simp add: negative jgt_def)
    next
      case nonneg: False
      show ?thesis
      proof
        assume h: "?i < int (length points) - 1 \<and> jgt (remainingDist ?pd ?st) (Fin 0.1)"
        with nonneg have "remainingDist ?pd ?st
                    = Fin (totalLength ?pd - pointDistances ?pd ! nat ?i)"
          by (intro in_range) simp_all
        with h nonneg have ?c by (simp add: jgt_def)
        with False show False by blast
      qed
    qed
    then have "finish_tail points ?pd s ?st = ?st"
      by (simp only: finish_tail_cases if_False)
    with t have "schedule (timeline points annotations areas s) = sched ?st
               \<and> totalDuration (timeline points annotations areas s) = timeCursor ?st"
      by simp
    with False show ?thesis by (simp only: if_False)
  qed
  from a b show ?thesis by (simp only: Let_def) blast
qed

theorem C9_trailing_draw_witness:
  "2 \<le> length boundary_points \<and> 0.1 < totalLength (pathData boundary_points)
   \<and> timeline boundary_points [] [] app_settings =
        \<lparr>schedule = [\<lparr>etype = Draw, startTime = Fin 0, duration = Fin 2,
                      startDist = Fin 0, endDist = Fin 20, itemId = None\<rparr>],
         totalDuration = Fin 2\<rparr>
   \<and> schedule (timeline square_points [backward_first] [] app_settings) =
        [\<lparr>etype = Draw, startTime = Fin 0, duration = Fin 2, startDist = Fin 0,
           endDist = Fin 20, itemId = None\<rparr>,
         \<lparr>etype = Wait, startTime = Fin 2, duration = Fin 1, startDist = Fin 20,
           endDist = Fin 20, itemId = Some ''a1''\<rparr>,
         \<lparr>etype = Draw, startTime = Fin 3, duration = Fin 2, startDist = Fin 20,
           endDist = Fin 30, itemId = None\<rparr>]
   \<and> totalDuration (timeline square_points [backward_first] [] app_settings) = Fin 5
   \<and> schedule (timeline boundary_points [backward_first] [] app_settings) =
        [\<lparr>etype = Draw, startTime = Fin 0, duration = Fin 2, startDist = Fin 0,
           endDist = Fin 20, itemId = None\<rparr>,
         \<lparr>etype = Wait, startTime = Fin 2, duration = Fin 1, startDist = Fin 20,
           endDist = Fin 20, itemId = Some ''a1''\<rparr>]
   \<and> totalDuration (timeline boundary_points [backward_first] [] app_settings) = Fin 3"
proof -
  have h: "2 \<le> length boundary_points \<and> 0.1 < totalLength (pathData boundary_points)"
    by (simp add: pathData_boundary)
  with C9_trailing_draw [of boundary_points app_settings]
  have "timeline boundary_points [] [] app_settings =
        \<lparr>schedule = [\<lparr>etype = Draw, startTime = Fin 0,
                      duration = defaultSegmentDuration app_settings,
                      startDist = Fin 0, endDist = Fin (totalLength (pathData boundary_points)),
                      itemId = None\<rparr>],
         totalDuration = defaultSegmentDuration app_settings\<rparr>"
    by blast
  then have z: "timeline boundary_points [] [] app_settings =
        \<lparr>schedule = [\<lparr>etype = Draw, startTime = Fin 0, duration = Fin 2,
                      startDist = Fin 0, endDist = Fin 20, itemId = None\<rparr>],
         totalDuration = Fin 2\<rparr>"
    by (simp add: pathData_boundary app_settings_def)
  have s1: "run_items (pathData square_points) app_settings init_state
              (sorted_items [backward_first] []) =
      \<lparr>sched =
         [\<lparr>etype = Draw, startTime = Fin 0, duration = Fin 2, startDist = Fin 0,
            endDist = Fin 20, itemId = None\<rparr>,
          \<lparr>etype = Wait, startTime = Fin 2, duration = Fin 1, startDist = Fin 20,
            endDist = Fin 20, itemId = Some ''a1''\<rparr>],
       timeCursor = Fin 3, distCursor = Fin 20, currentPointIdx = 2\<rparr>"
    by (simp add: run_items_def init_state_def sorted_items_def draw_segment_def
        wait_label_def segmentDist_def nullish_def num_at_def jgt_def Let_def
        pathData_square app_settings_def)
  have s2: "run_items (pathData boundary_points) app_settings init_state
              (sorted_items [backward_first] []) =
      \<lparr>sched =
         [\<lparr>etype = Draw, startTime = Fin 0, duration = Fin 2, startDist = Fin 0,
            endDist = Fin 20, itemId = None\<rparr>,
          \<lparr>etype = Wait, startTime = Fin 2, duration = Fin 1, startDist = Fin 20,
            endDist = Fin 20, itemId = Some ''a1''\<rparr>],
       timeCursor = Fin 3, distCursor = Fin 20, currentPointIdx = 2\<rparr>"
    by (simp add: run_items_def init_state_def sorted_items_def draw_segment_def
        wait_label_def segmentDist_def nullish_def num_at_def jgt_def Let_def
        pathData_boundary app_settings_def)
  from C9_trailing_draw [of square_points app_settings "[backward_first]" "[]",
      THEN conjunct2, unfolded Let_def s1]
  have g1: "schedule (timeline square_points [backward_first] [] app_settings) =
        [\<lparr>etype = Draw, startTime = Fin 0, duration = Fin 2, startDist = Fin 0,
           endDist = Fin 20, itemId = None\<rparr>,
         \<lparr>etype = Wait, startTime = Fin 2, duration = Fin 1, startDist = Fin 20,
           endDist = Fin 20, itemId = Some ''a1''\<rparr>,
         \<lparr>etype = Draw, startTime = Fin 3, duration = Fin 2, startDist = Fin 20,
           endDist = Fin 30, itemId = None\<rparr>]
   \<and> totalDuration (timeline square_points [backward_first] [] app_settings) = Fin 5"
    by (simp add: pathData_square app_settings_def)
  from C9_trailing_draw [of boundary_points app_settings "[backward_first]" "[]",
      THEN conjunct2, unfolded Let_def s2]
  have g2: "schedule (timeline boundary_points [backward_first] [] app_settings) =
        [\<lparr>etype = Draw, startTime = Fin 0, duration = Fin 2, startDist = Fin 0,
           endDist = Fin 20, itemId = None\<rparr>,
         \<lparr>etype = Wait, startTime = Fin 2, duration = Fin 1, startDist = Fin 20,
           endDist = Fin 20, itemId = Some ''a1''\<rparr>]
   \<and> totalDuration (timeline boundary_points [backward_first] [] app_settings) = Fin 3"
    by (simp add: pathData_boundary)
  from h z g1 g2 show ?thesis by blast
qed

section \<open>The bootstrap draw event\<close>

lemma step_bootstrap:
  "pathIndex a = 0 \<Longrightarrow>
   step pd s init_state (AnnotationItem a) =
     \<lparr>sched =
        [\<lparr>etype = Draw, startTime = Fin 0,
          duration = nullish (segmentDuration a) (defaultSegmentDuration s),
          startDist = Fin 0, endDist = Fin 0, itemId = None\<rparr>,
         \<lparr>etype = Wait,
          startTime = nullish (segmentDuration a) (defaultSegmentDuration s),
          duration = nullish (pauseDuration a) (defaultPauseDuration s),
          startDist = Fin 0, endDist = Fin 0, itemId = Some (ann_id a)\<rparr>],
      timeCursor = jadd (nullish (segmentDuration a) (defaultSegmentDuration s))
                     (nullish (pauseDuration a) (defaultPauseDuration s)),
      distCursor = Fin 0, currentPointIdx = 0\<rparr>"
  by (simp add: draw_segment_def wait_label_def segmentDist_def init_state_def Let_def)

lemma timeline_bootstrap:
  "timeline boundary_points [bootstrap_annotation] [] app_settings
     = \<lparr>schedule =
          [\<lparr>etype = Draw, startTime = Fin 0, duration = Fin 2, startDist = Fin 0,
            endDist = Fin 0, itemId = None\<rparr>,
           \<lparr>etype = Wait, startTime = Fin 2, duration = Fin 1, startDist = Fin 0,
            endDist = Fin 0, itemId = Some ''a1''\<rparr>,
           \<lparr>etype = Draw, startTime = Fin 3, duration = Fin 2, startDist = Fin 0,
            endDist = Fin 20, itemId = None\<rparr>],
         totalDuration = Fin 5\<rparr>"
  by (simp add: builder_defs pathData_boundary app_settings_def)

text \<open>
  Claim C1, as stated, fails: with the three waypoints of the boundary scenario and one
  annotation on waypoint 0 (segment duration 2, pause 1, initial settings) the bootstrap
  draw event covers no distance but lasts 2 seconds; the wait event starts at 2 and
  \<open>totalDuration\<close> is 5.
\<close>

theorem C1_bootstrap_counterexample:
  "timeline boundary_points [bootstrap_annotation] [] app_settings
     = \<lparr>schedule =
          [\<lparr>etype = Draw, startTime = Fin 0, duration = Fin 2, startDist = Fin 0,
            endDist = Fin 0, itemId = None\<rparr>,
           \<lparr>etype = Wait, startTime = Fin 2, duration = Fin 1, startDist = Fin 0,
            endDist = Fin 0, itemId = Some ''a1''\<rparr>,
           \<lparr>etype = Draw, startTime = Fin 3, duration = Fin 2, startDist = Fin 0,
            endDist = Fin 20, itemId = None\<rparr>],
         totalDuration = Fin 5\<rparr>
   \<and> duration (hd (schedule (timeline boundary_points [bootstrap_annotation] [] app_settings)))
       \<noteq> Fin 0"
  by (simp add: timeline_bootstrap)

text \<open>
  Claim C1, amended. When the first item in scheduling order is an annotation with
  \<open>pathIndex = 0\<close>, the schedule starts with a draw event at time 0 that covers no
  distance (from 0 to 0) and lasts \<open>segmentDuration ?? defaultSegmentDuration\<close>; the
  annotation's wait event follows and starts at that duration, and the remaining items
  and the tail are scheduled from the time cursor \<open>draw duration + wait duration\<close>: the
  later start times and \<open>totalDuration\<close> include the duration of the bootstrap event.
\<close>

theorem C1_bootstrap_draw:
  assumes "sorted_items annotations areas = AnnotationItem a # rest"
    and "pathIndex a = 0"
  shows "timeline points annotations areas s =
      (let d = nullish (segmentDuration a) (defaultSegmentDuration s);
           w = nullish (pauseDuration a) (defaultPauseDuration s);
           st = finish_tail points (pathData points) s
                  (run_items (pathData points) s
                    \<lparr>sched =
                       [\<lparr>etype = Draw, startTime = Fin 0, duration = d,
                         startDist = Fin 0, endDist = Fin 0, itemId = None\<rparr>,
                        \<lparr>etype = Wait, startTime = d, duration = w,
                         startDist = Fin 0, endDist = Fin 0, itemId = Some (ann_id a)\<rparr>],
                     timeCursor = jadd d w, distCursor = Fin 0, currentPointIdx = 0\<rparr>
                    rest)
       in \<lparr>schedule = sched st, totalDuration = timeCursor st\<rparr>)
    \<and> take 2 (schedule (timeline points annotations areas s)) =
        [\<lparr>etype = Draw, startTime = Fin 0,
          duration = nullish (segmentDuration a) (defaultSegmentDuration s),
          startDist = Fin 0, endDist = Fin 0, itemId = None\<rparr>,
         \<lparr>etype = Wait,
          startTime = nullish (segmentDuration a) (defaultSegmentDuration s),
          duration = nullish (pauseDuration a) (defaultPauseDuration s),
          startDist = Fin 0, endDist = Fin 0, itemId = Some (ann_id a)\<rparr>]"
proof -
  let ?d = "nullish (segmentDuration a) (defaultSegmentDuration s)"
  let ?w = "nullish (pauseDuration a) (defaultPauseDuration s)"
  let ?two = "[\<lparr>etype = Draw, startTime = Fin 0, duration = ?d,
                 startDist = Fin 0, endDist = Fin 0, itemId = None\<rparr>,
               \<lparr>etype = Wait, startTime = ?d, duration = ?w,
                 startDist = Fin 0, endDist = Fin 0, itemId = Some (ann_id a)\<rparr>]"
  let ?st1 = "\<lparr>sched = ?two, timeCursor = jadd ?d ?w, distCursor = Fin 0, currentPointIdx = 0\<rparr>"
  let ?st = "finish_tail points (pathData points) s (run_items (pathData points) s ?st1 rest)"
  have t: "timeline points annotations areas s
             = \<lparr>schedule = sched ?st, totalDuration = timeCursor ?st\<rparr>"
    using assms
    by (simp add: timeline_def run_items_Cons step_bootstrap Let_def del: step.simps)
  from sched_run_items [of "pathData points" s ?st1 rest] obtain es
    where "sched (run_items (pathData points) s ?st1 rest) = ?two @ es" by auto
  moreover from sched_finish_tail [of points "pathData points" s
      "run_items (pathData points) s ?st1 rest"] obtain es'
    where "sched ?st = sched (run_items (pathData points) s ?st1 rest) @ es'" by blast
  ultimately have "take 2 (sched ?st) = ?two" by simp
  with t show ?thesis by (simp add: Let_def)
qed

theorem C1_bootstrap_draw_witness:
  "sorted_items [bootstrap_annotation] [] = [AnnotationItem bootstrap_annotation]
   \<and> pathIndex bootstrap_annotation = 0
   \<and> take 2 (schedule (timeline boundary_points [bootstrap_annotation] [] app_settings)) =
        [\<lparr>etype = Draw, startTime = Fin 0, duration = Fin 2,
          startDist = Fin 0, endDist = Fin 0, itemId = None\<rparr>,
         \<lparr>etype = Wait, startTime = Fin 2, duration = Fin 1,
          startDist = Fin 0, endDist = Fin 0, itemId = Some ''a1''\<rparr>]"
proof -
  have h: "sorted_items [bootstrap_annotation] [] = AnnotationItem bootstrap_annotation # []"
    by (simp add: sorted_items_def)
  have p: "pathIndex bootstrap_annotation = 0" by simp
  from C1_bootstrap_draw [OF h p, of boundary_points app_settings]
  have "take 2 (schedule (timeline boundary_points [bootstrap_annotation] [] app_settings)) =
        [\<lparr>etype = Draw, startTime = Fin 0,
          duration = nullish (segmentDuration bootstrap_annotation)
                       (defaultSegmentDuration app_settings),
          startDist = Fin 0, endDist = Fin 0, itemId = None\<rparr>,
         \<lparr>etype = Wait,
          startTime = nullish (segmentDuration bootstrap_annotation)
                        (defaultSegmentDuration app_settings),
          duration = nullish (pauseDuration bootstrap_annotation)
                       (defaultPauseDuration app_settings),
          startDist = Fin 0, endDist = Fin 0, itemId = Some (ann_id bootstrap_annotation)\<rparr>]"
    by (rule conjunct2)
  then show ?thesis using h by (simp add: nullish_def)
qed

section \<open>The schedule of the builder is chained; reveal is monotonic\<close>

lemma chained_snoc:
  "chained c (es @ [e]) c' = (chained c es (startTime e) \<and> c' = jadd (startTime e) (duration e))"
  by (induction es arbitrary: c) auto

lemma chained_draw_segment:
  "chained c (sched st) (timeCursor st) \<Longrightarrow>
   chained c (sched (draw_segment pd s st a)) (timeCursor (draw_segment pd s st a))"
  by (simp add: draw_segment_def Let_def chained_snoc)

lemma chained_wait_label:
  "chained c (sched st) (timeCursor st) \<Longrightarrow>
   chained c (sched (wait_label s st a)) (timeCursor (wait_label s st a))"
  by (simp add: wait_label_def Let_def chained_snoc)

lemma chained_step:
  "chained c (sched st) (timeCursor st) \<Longrightarrow>
   chained c (sched (step pd s st it)) (timeCursor (step pd s st it))"
  by (cases it) (simp_all add: chained_draw_segment chained_wait_label Let_def chained_snoc)

lemma chained_run_items:
  "chained c (sched st) (timeCursor st) \<Longrightarrow>
   chained c (sched (run_items pd s st items)) (timeCursor (run_items pd s st items))"
proof (induction items arbitrary: st)
  case Nil
  then show ?case by (simp add: run_items_Nil)
next
  case (Cons it items)
  from Cons.IH [OF chained_step [OF Cons.prems]] show ?case
    by (simp add: run_items_Cons)
qed

lemma chained_finish_tail:
  "chained c (sched st) (timeCursor st) \<Longrightarrow>
   chained c (sched (finish_tail points pd s st)) (timeCursor (finish_tail points pd s st))"
  by (simp add: finish_tail_def Let_def chained_snoc)

lemma chained_timeline:
  "chained (Fin 0) (schedule (timeline points annotations areas s))
     (totalDuration (timeline points annotations areas s))"
proof -
  have "chained (Fin 0) (sched init_state) (timeCursor init_state)"
    by (simp add: init_state_def)
  from chained_finish_tail [OF chained_run_items [OF this]] show ?thesis
    by (simp add: timeline_def Let_def)
qed

lemma isPassed_mono: "isPassed t1 e \<Longrightarrow> jlt t1 t2 \<Longrightarrow> isPassed t2 e"
  by (cases t1; cases t2; cases "jadd (startTime e) (duration e)")
     (simp_all add: isPassed_def)

lemma pushed_ids_Cons: "pushed_ids ty (e # es) = pushed_id ty e @ pushed_ids ty es"
  by (simp add: pushed_ids_def)

lemma pushed_ids_Nil: "pushed_ids ty [] = []"
  by (simp add: pushed_ids_def)

lemma passed_ids_mono:
  "jlt t1 t2 \<Longrightarrow>
   set (pushed_ids ty (filter (isPassed t1) es)) \<subseteq> set (pushed_ids ty (filter (isPassed t2) es))"
  by (induction es) (auto simp: pushed_ids_Cons pushed_ids_Nil dest: isPassed_mono)

lemma visible_Nil: "visible ty [] t = {}"
  by (simp add: visible_def pushed_ids_Nil pushed_active_def)

lemma visible_NaN_start:
  "chained NaN es c' \<Longrightarrow> visible ty es t = {}"
proof (induction es)
  case Nil
  then show ?case by (simp add: visible_Nil)
next
  case (Cons e es)
  then have "\<not> isActive t e" "\<not> isPassed t e" "chained NaN es c'"
    by (simp_all add: isActive_def isPassed_def jge_def)
  with Cons.IH show ?case by (simp add: visible_def)
qed

lemma visible_mono:
  "chained (Fin c) es c' \<Longrightarrow> c \<le> a \<Longrightarrow> a < b \<Longrightarrow>
   visible ty es (Fin a) \<subseteq> visible ty es (Fin b)"
proof (induction es arbitrary: c)
  case Nil
  then show ?case by (simp add: visible_Nil)
next
  case (Cons e es)
  from Cons.prems have st: "startTime e = Fin c"
    and ch: "chained (jadd (Fin c) (duration e)) es c'" by simp_all
  have pm: "set (pushed_ids ty (filter (isPassed (Fin a)) (e # es)))
              \<subseteq> set (pushed_ids ty (filter (isPassed (Fin b)) (e # es)))"
    using Cons.prems(3) by (intro passed_ids_mono) simp
  show ?case
  proof (cases "duration e")
    case NaN
    with st have n: "\<not> isActive t e" "\<not> isPassed t e" for t
      by (simp_all add: isActive_def isPassed_def)
    from ch NaN have "chained NaN es c'" by simp
    then have "visible ty es t = {}" for t by (rule visible_NaN_start)
    with n show ?thesis by (simp add: visible_def)
  next
    case (Fin d)
    show ?thesis
    proof (cases "a < c + d")
      case True
      with st Fin Cons.prems(2) have act: "isActive (Fin a) e"
        by (simp add: isActive_def jge_def)
      then have va: "visible ty (e # es) (Fin a)
          = set (pushed_ids ty (filter (isPassed (Fin a)) (e # es))) \<union> set (pushed_id ty e)"
        by (simp add: visible_def pushed_active_def)
      have "set (pushed_id ty e) \<subseteq> visible ty (e # es) (Fin b)"
      proof (cases "b < c + d")
        case True
        with st Fin Cons.prems have "isActive (Fin b) e"
          by (simp add: isActive_def jge_def)
        then show ?thesis by (simp add: visible_def pushed_active_def)
      next
        case False
        with st Fin have "isPassed (Fin b) e" by (simp add: isPassed_def)
        then show ?thesis by (simp add: visible_def pushed_ids_Cons)
      qed
      moreover have "set (pushed_ids ty (filter (isPassed (Fin b)) (e # es)))
          \<subseteq> visible ty (e # es) (Fin b)"
        by (simp add: visible_def)
      ultimately show ?thesis using va pm by blast
    next
      case False
      with st Fin Cons.prems have na: "\<not> isActive (Fin a) e" "\<not> isActive (Fin b) e"
        and pa: "isPassed (Fin a) e" "isPassed (Fin b) e"
        by (simp_all add: isActive_def isPassed_def jge_def)
      have v: "visible ty (e # es) (Fin t) = set (pushed_id ty e) \<union> visible ty es (Fin t)"
        if "\<not> isActive (Fin t) e" "isPassed (Fin t) e" for t
        using that by (simp add: visible_def pushed_ids_Cons)
      from ch Fin have "chained (Fin (c + d)) es c'" by simp
      from Cons.IH [OF this _ Cons.prems(3)] False
      have "visible ty es (Fin a) \<subseteq> visible ty es (Fin b)" by simp
      with v [OF na(1) pa(1)] v [OF na(2) pa(2)] show ?thesis by blast
    qed
  qed
qed


lemma revealed_annotations:
  "set (activeAnnotationIds (getAnimationState s tline pd time))
     = revealed Wait s (schedule tline) time"
  by (simp add: getAnimationState_def revealed_def visible_def Let_def)

lemma revealed_areas:
  "set (visibleAreaIds (getAnimationState s tline pd time))
     = revealed AreaEv s (schedule tline) time"
  by (simp add: getAnimationState_def revealed_def visible_def Let_def)

lemma visible_NaN: "visible ty es NaN = {}"
proof -
  have "filter (isPassed NaN) es = []"
    by (induction es) (simp_all add: isPassed_def)
  moreover have "find (isActive NaN) es = None"
    by (induction es) (simp_all add: isActive_def jge_def)
  ultimately show ?thesis by (simp add: visible_def pushed_ids_Nil pushed_active_def)
qed

lemma revealed_mono:
  assumes ch: "chained (Fin 0) es c'" and lt: "jlt t1 t2"
  shows "revealed ty s es t1 \<subseteq> revealed ty s es t2"
proof
  fix x assume x: "x \<in> revealed ty s es t1"
  from lt obtain a b where t: "t1 = Fin a" "t2 = Fin b" "a < b"
    by (cases t1; cases t2) simp_all
  show "x \<in> revealed ty s es t2"
  proof (cases "enableFlash s")
    case False
    with x t have a: "0 \<le> a" and v: "x \<in> visible ty es (Fin a)"
      by (simp_all add: revealed_def split: if_splits)
    from visible_mono [OF ch a t(3)] v have "x \<in> visible ty es (Fin b)" by blast
    with False t a show ?thesis by (simp add: revealed_def)
  next
    case True
    show ?thesis
    proof (cases "flashDuration s")
      case NaN
      with True x t show ?thesis by (simp add: revealed_def visible_NaN)
    next
      case (Fin f)
      with True x t have a: "0 \<le> a - f" and v: "x \<in> visible ty es (Fin (a - f))"
        by (simp_all add: revealed_def split: if_splits)
      from t(3) have "a - f < b - f" by simp
      from visible_mono [OF ch a this] v have "x \<in> visible ty es (Fin (b - f))" by blast
      with True Fin t a show ?thesis by (simp add: revealed_def)
    qed
  qed
qed

text \<open>
  Claim C6. \<^verbatim>\<open>getAnimationState\<close> reads the schedule of the timeline, which the
  builder produces. For every such timeline (from any waypoints, items and default
  durations), every flash setting and every path data: an id in the annotation ids, or
  in the area ids, returned at a time \<open>t1\<close> is in the same list at every later time
  \<open>t2\<close>, up to, at and beyond \<open>totalDuration\<close>.
\<close>

theorem C6_monotonic_reveal:
  assumes "jlt t1 t2"
  shows "set (activeAnnotationIds
                (getAnimationState s' (timeline points annotations areas s) pd t1))
           \<subseteq> set (activeAnnotationIds
                (getAnimationState s' (timeline points annotations areas s) pd t2))
       \<and> set (visibleAreaIds
                (getAnimationState s' (timeline points annotations areas s) pd t1))
           \<subseteq> set (visibleAreaIds
                (getAnimationState s' (timeline points annotations areas s) pd t2))"
  using revealed_mono [OF chained_timeline assms]
  by (simp add: revealed_annotations revealed_areas)

theorem C6_monotonic_reveal_witness:
  "jlt (Fin 2.5) (Fin 5)
   \<and> ''a1'' \<in> set (activeAnnotationIds (getAnimationState app_settings
         (timeline boundary_points [boundary_annotation ''a1'' 1] [] (boundary_settings app_settings))
         (pathData boundary_points) (Fin 2.5)))
   \<and> ''a1'' \<in> set (activeAnnotationIds (getAnimationState app_settings
         (timeline boundary_points [boundary_annotation ''a1'' 1] [] (boundary_settings app_settings))
         (pathData boundary_points) (Fin 5)))"
proof -
  have h: "jlt (Fin 2.5) (Fin 5)" by simp
  have m: "''a1'' \<in> set (activeAnnotationIds (getAnimationState app_settings
         (timeline boundary_points [boundary_annotation ''a1'' 1] [] (boundary_settings app_settings))
         (pathData boundary_points) (Fin 2.5)))"
    unfolding timeline_boundary by (simp add: resolver_defs app_settings_def)
  from C6_monotonic_reveal [OF h, of app_settings boundary_points
      "[boundary_annotation ''a1'' 1]" "[]" "boundary_settings app_settings"
      "pathData boundary_points"] m
  have "''a1'' \<in> set (activeAnnotationIds (getAnimationState app_settings
         (timeline boundary_points [boundary_annotation ''a1'' 1] [] (boundary_settings app_settings))
         (pathData boundary_points) (Fin 5)))"
    by blast
  with h m show ?thesis by blast
qed

section \<open>Non-negative durations\<close>

lemma nonneg_Fin: "nonneg a = (\<exists>r. a = Fin r \<and> 0 \<le> r)"
  by (cases a) (simp_all add: nonneg_def)

lemma nonneg_jadd: "nonneg a \<Longrightarrow> nonneg b \<Longrightarrow> nonneg (jadd a b)"
  by (auto simp: nonneg_Fin)

lemma nonneg_nullish: "nonneg_opt a \<Longrightarrow> nonneg b \<Longrightarrow> nonneg (nullish a b)"
  by (simp add: nonneg_opt_def nullish_def split: option.splits)

lemma isPassed_later: "isPassed c e \<Longrightarrow> nonneg d \<Longrightarrow> isPassed (jadd c d) e"
  by (cases c; cases "jadd (startTime e) (duration e)") (auto simp: isPassed_def nonneg_Fin)

lemma isPassed_new: "nonneg c \<Longrightarrow> nonneg d \<Longrightarrow> startTime e = c \<Longrightarrow> duration e = d
    \<Longrightarrow> isPassed (jadd c d) e"
  by (auto simp: isPassed_def nonneg_Fin)

lemma jgt_nonneg: "jgt a (Fin r) \<Longrightarrow> 0 \<le> r \<Longrightarrow> nonneg a"
  by (cases a) (simp_all add: jgt_def nonneg_def)

lemma state_ok_snoc:
  assumes "state_ok st" and "nonneg (duration e)" and "startTime e = timeCursor st"
    and "nonneg (startDist e)" and "nonneg (endDist e)"
    and "sched st' = sched st @ [e]"
    and "timeCursor st' = jadd (timeCursor st) (duration e)"
    and "nonneg (distCursor st')"
  shows "state_ok st'"
proof -
  from assms(1) have tc: "nonneg (timeCursor st)"
    and ev: "list_all (\<lambda>e. event_nonneg e \<and> isPassed (timeCursor st) e) (sched st)"
    by (simp_all add: state_ok_def)
  from ev assms(2)
  have "list_all (\<lambda>x. event_nonneg x \<and> isPassed (jadd (timeCursor st) (duration e)) x) (sched st)"
    by (auto simp: list_all_iff intro: isPassed_later)
  moreover have "isPassed (jadd (timeCursor st) (duration e)) e"
    using tc assms(2,3) by (intro isPassed_new) simp_all
  moreover have "event_nonneg e"
    using tc assms(2-5) by (simp add: event_nonneg_def)
  ultimately show ?thesis
    using tc assms(2,6,7,8) by (simp add: state_ok_def nonneg_jadd)
qed

lemma state_ok_distCursor: "state_ok st \<Longrightarrow> nonneg (distCursor st)"
  by (simp add: state_ok_def)

lemma draw_segment_cases:
  "draw_segment pd s st a =
     (if jgt (segmentDist pd st (pathIndex a)) (Fin 0)
         \<or> (currentPointIdx st = 0 \<and> pathIndex a = 0 \<and> length (sched st) = 0)
      then st\<lparr>sched := sched st @
                 [\<lparr>etype = Draw, startTime = timeCursor st,
                   duration = nullish (segmentDuration a) (defaultSegmentDuration s),
                   startDist = distCursor st,
                   endDist = jadd (distCursor st) (segmentDist pd st (pathIndex a)),
                   itemId = None\<rparr>],
               timeCursor := jadd (timeCursor st)
                               (nullish (segmentDuration a) (defaultSegmentDuration s)),
               distCursor := jadd (distCursor st) (segmentDist pd st (pathIndex a))\<rparr>
      else st)"
  by (simp add: draw_segment_def Let_def)

lemma state_ok_draw_segment:
  assumes "state_ok st" "nonneg_opt (segmentDuration a)" "defaults_nonneg s"
  shows "state_ok (draw_segment pd s st a)"
proof -
  let ?sd = "segmentDist pd st (pathIndex a)"
  let ?d = "nullish (segmentDuration a) (defaultSegmentDuration s)"
  have d: "nonneg ?d"
    using assms(2,3) by (simp add: nonneg_nullish defaults_nonneg_def)
  show ?thesis
  proof (cases "jgt ?sd (Fin 0) \<or> (currentPointIdx st = 0 \<and> pathIndex a = 0 \<and> length (sched st) = 0)")
    case True
    then have "nonneg ?sd"
    proof
      assume "jgt ?sd (Fin 0)"
      then show ?thesis by (rule jgt_nonneg) simp
    next
      assume "currentPointIdx st = 0 \<and> pathIndex a = 0 \<and> length (sched st) = 0"
      then show ?thesis by (simp add: segmentDist_def nonneg_def)
    qed
    with state_ok_distCursor [OF assms(1)]
    have e: "nonneg (jadd (distCursor st) ?sd)" by (simp add: nonneg_jadd)
    have "state_ok (st\<lparr>sched := sched st @
                 [\<lparr>etype = Draw, startTime = timeCursor st, duration = ?d,
                   startDist = distCursor st, endDist = jadd (distCursor st) ?sd,
                   itemId = None\<rparr>],
               timeCursor := jadd (timeCursor st) ?d,
               distCursor := jadd (distCursor st) ?sd\<rparr>)"
      using d e state_ok_distCursor [OF assms(1)]
      by (intro state_ok_snoc [OF assms(1), where e = "\<lparr>etype = Draw, startTime = timeCursor st,
            duration = ?d, startDist = distCursor st, endDist = jadd (distCursor st) ?sd,
            itemId = None\<rparr>"]) simp_all
    with True show ?thesis by (simp only: draw_segment_cases if_True)
  next
    case False
    with assms(1) show ?thesis by (simp only: draw_segment_cases if_False)
  qed
qed

lemma state_ok_wait_label:
  assumes "state_ok st" "nonneg_opt (pauseDuration a)" "defaults_nonneg s"
  shows "state_ok (wait_label s st a)"
proof -
  have d: "nonneg (nullish (pauseDuration a) (defaultPauseDuration s))"
    using assms(2,3) by (simp add: nonneg_nullish defaults_nonneg_def)
  show ?thesis
    unfolding wait_label_def Let_def
    using d state_ok_distCursor [OF assms(1)]
    by (intro state_ok_snoc [OF assms(1), where e = "\<lparr>etype = Wait, startTime = timeCursor st,
          duration = nullish (pauseDuration a) (defaultPauseDuration s),
          startDist = distCursor st, endDist = distCursor st,
          itemId = Some (ann_id a)\<rparr>"]) simp_all
qed

lemma state_ok_step:
  assumes "state_ok st" "item_nonneg it" "defaults_nonneg s"
  shows "state_ok (step pd s st it)"
proof (cases it)
  case (AnnotationItem a)
  with assms show ?thesis
    by (simp add: state_ok_wait_label state_ok_draw_segment)
next
  case (AreaItem ar)
  with assms have d: "nonneg (nullish (appearDuration ar) (defaultAreaDuration s))"
    by (simp add: nonneg_nullish defaults_nonneg_def)
  have "state_ok (st\<lparr>sched := sched st @
               [\<lparr>etype = AreaEv, startTime = timeCursor st,
                 duration = nullish (appearDuration ar) (defaultAreaDuration s),
                 startDist = distCursor st, endDist = distCursor st,
                 itemId = Some (area_id ar)\<rparr>],
             timeCursor := jadd (timeCursor st)
                             (nullish (appearDuration ar) (defaultAreaDuration s))\<rparr>)"
    using d state_ok_distCursor [OF assms(1)]
    by (intro state_ok_snoc [OF assms(1), where e = "\<lparr>etype = AreaEv, startTime = timeCursor st,
          duration = nullish (appearDuration ar) (defaultAreaDuration s),
          startDist = distCursor st, endDist = distCursor st,
          itemId = Some (area_id ar)\<rparr>"]) simp_all
  with AreaItem show ?thesis by (simp add: Let_def)
qed

lemma state_ok_run_items:
  "state_ok st \<Longrightarrow> list_all item_nonneg items \<Longrightarrow> defaults_nonneg s \<Longrightarrow>
   state_ok (run_items pd s st items)"
proof (induction items arbitrary: st)
  case Nil
  then show ?case by (simp add: run_items_Nil)
next
  case (Cons it items)
  from Cons.prems have "state_ok (step pd s st it)"
    by (intro state_ok_step) simp_all
  from Cons.IH [OF this] Cons.prems show ?case
    by (simp add: run_items_Cons)
qed

lemma state_ok_finish_tail:
  assumes "state_ok st" "defaults_nonneg s"
  shows "state_ok (finish_tail points pd s st)"
proof (cases "currentPointIdx st < int (length points) - 1 \<and> jgt (remainingDist pd st) (Fin 0.1)")
  case True
  then have "nonneg (remainingDist pd st)"
    by (intro jgt_nonneg [of _ "0.1"]) simp_all
  with state_ok_distCursor [OF assms(1)]
  have e: "nonneg (jadd (distCursor st) (remainingDist pd st))" by (simp add: nonneg_jadd)
  from assms(2) have d: "nonneg (defaultSegmentDuration s)"
    by (simp add: defaults_nonneg_def)
  have "state_ok (st\<lparr>sched := sched st @
            [\<lparr>etype = Draw, startTime = timeCursor st, duration = defaultSegmentDuration s,
              startDist = distCursor st,
              endDist = jadd (distCursor st) (remainingDist pd st), itemId = None\<rparr>],
          timeCursor := jadd (timeCursor st) (defaultSegmentDuration s)\<rparr>)"
    using d e state_ok_distCursor [OF assms(1)]
    by (intro state_ok_snoc [OF assms(1), where e = "\<lparr>etype = Draw, startTime = timeCursor st,
          duration = defaultSegmentDuration s, startDist = distCursor st,
          endDist = jadd (distCursor st) (remainingDist pd st), itemId = None\<rparr>"]) simp_all
  with True show ?thesis by (simp only: finish_tail_cases if_True simp_thms)
next
  case False
  with assms(1) show ?thesis by (simp only: finish_tail_cases if_False)
qed

lemma state_ok_init: "state_ok init_state"
  by (simp add: state_ok_def init_state_def nonneg_def)

lemma sorted_items_nonneg:
  "nonneg_durations annotations areas s \<Longrightarrow> list_all item_nonneg (sorted_items annotations areas)"
  by (auto simp: nonneg_durations_def sorted_items_def list_all_iff)

lemma nonneg_durations_defaults: "nonneg_durations annotations areas s \<Longrightarrow> defaults_nonneg s"
  by (simp add: nonneg_durations_def defaults_nonneg_def)

lemma state_ok_timeline:
  assumes "nonneg_durations annotations areas s"
  shows "nonneg (totalDuration (timeline points annotations areas s))
     \<and> list_all (\<lambda>e. event_nonneg e
           \<and> isPassed (totalDuration (timeline points annotations areas s)) e)
         (schedule (timeline points annotations areas s))"
proof -
  note d = nonneg_durations_defaults [OF assms]
  from state_ok_finish_tail [OF state_ok_run_items [OF state_ok_init sorted_items_nonneg [OF assms] d] d]
  show ?thesis by (simp add: timeline_def Let_def state_ok_def)
qed

lemma find_isActive_None:
  "list_all (\<lambda>e. isPassed c e) es \<Longrightarrow> jge t c \<Longrightarrow> find (isActive t) es = None"
proof -
  assume p: "list_all (\<lambda>e. isPassed c e) es" and g: "jge t c"
  have "\<not> isActive t e" if "isPassed c e" for e
    using that g
    by (cases t; cases c; cases "jadd (startTime e) (duration e)")
       (simp_all add: isActive_def isPassed_def jge_def)
  with p show ?thesis by (auto simp: find_None_iff list_all_iff)
qed

text \<open>
  Claim C7, amended. When the durations of the items (where present) and the three
  default durations are numbers that are not negative, then for every schedule produced
  by the Timeline Builder and every elapsed time whose effective time (the elapsed time
  minus the flash duration when the flash is enabled) is at least \<open>totalDuration\<close>, the
  resolver returns \<open>currentDistance = totalLength\<close>.
\<close>

theorem C7_total_distance:
  assumes "nonneg_durations annotations areas s"
    and "jge (if enableFlash s' then jsub time (flashDuration s') else time)
             (totalDuration (timeline points annotations areas s))"
  shows "currentDistance
           (getAnimationState s' (timeline points annotations areas s) (pathData points) time)
         = Fin (totalLength (pathData points))"
proof -
  let ?tl = "timeline points annotations areas s"
  let ?eff = "if enableFlash s' then jsub time (flashDuration s') else time"
  from state_ok_timeline [OF assms(1)]
  have n: "nonneg (totalDuration ?tl)"
    and p: "list_all (\<lambda>e. isPassed (totalDuration ?tl) e) (schedule ?tl)"
    by (simp_all add: list_all_iff)
  from n obtain T where T: "totalDuration ?tl = Fin T" "0 \<le> T"
    by (auto simp: nonneg_Fin)
  from assms(2) T obtain a where a: "?eff = Fin a" "T \<le> a"
    by (cases ?eff) (simp_all add: jge_def)
  have nf: "\<not> (enableFlash s' \<and> jlt time (flashDuration s'))"
  proof
    assume f: "enableFlash s' \<and> jlt time (flashDuration s')"
    then obtain x f' where "time = Fin x" "flashDuration s' = Fin f'" "x < f'"
      by (cases time; cases "flashDuration s'") simp_all
    with f a T show False by simp
  qed
  have n0: "\<not> jlt ?eff (Fin 0)"
    using a T by simp
  have fa: "find (isActive ?eff) (schedule ?tl) = None"
    using p assms(2) by (rule find_isActive_None)
  have "getAnimationState s' ?tl (pathData points) time
          = \<lparr>currentDistance = Fin (totalLength (pathData points)),
             activeAnnotationIds = pushed_ids Wait (filter (isPassed ?eff) (schedule ?tl)),
             visibleAreaIds = pushed_ids AreaEv (filter (isPassed ?eff) (schedule ?tl)),
             isFlashing = False\<rparr>"
    unfolding getAnimationState_def Let_def
    by (simp only: nf n0 fa assms(2) if_False if_True option.case pushed_active_def append_Nil2)
  then show ?thesis by simp
qed

lemma timeline_shrinking:
  "timeline boundary_points [] shrinking_areas app_settings
     = \<lparr>schedule =
          [\<lparr>etype = AreaEv, startTime = Fin 0, duration = Fin 5, startDist = Fin 0,
            endDist = Fin 0, itemId = Some ''z1''\<rparr>,
           \<lparr>etype = AreaEv, startTime = Fin 5, duration = Fin (- 3), startDist = Fin 0,
            endDist = Fin 0, itemId = Some ''z2''\<rparr>,
           \<lparr>etype = Draw, startTime = Fin 2, duration = Fin 2, startDist = Fin 0,
            endDist = Fin 20, itemId = None\<rparr>],
         totalDuration = Fin 4\<rparr>"
  by (simp add: builder_defs pathData_boundary app_settings_def)

text \<open>
  Claim C7, as stated for every schedule of the builder, fails when a duration is
  negative: with an area fading in for 5 seconds followed by an area of duration -3, the
  time cursor goes back to 2 and \<open>totalDuration\<close> is 4, but at time 4.5 the first area
  event (from 0 to 5) is still the active one and the distance is its start distance 0,
  not the length 20 of the path.
\<close>

theorem C7_total_distance_counterexample:
  "totalDuration (timeline boundary_points [] shrinking_areas app_settings) = Fin 4
   \<and> jge (Fin 4.5) (totalDuration (timeline boundary_points [] shrinking_areas app_settings))
   \<and> currentDistance (getAnimationState app_settings
        (timeline boundary_points [] shrinking_areas app_settings)
        (pathData boundary_points) (Fin 4.5)) = Fin 0
   \<and> totalLength (pathData boundary_points) = 20"
  unfolding timeline_shrinking
  by (simp add: resolver_defs pathData_boundary app_settings_def)

theorem C7_total_distance_witness:
  "nonneg_durations [boundary_annotation ''a1'' 1] [] (boundary_settings app_settings)
   \<and> jge (Fin 6) (totalDuration (timeline boundary_points [boundary_annotation ''a1'' 1] []
            (boundary_settings app_settings)))
   \<and> currentDistance (getAnimationState app_settings
        (timeline boundary_points [boundary_annotation ''a1'' 1] []
            (boundary_settings app_settings))
        (pathData boundary_points) (Fin 6)) = Fin 20"
proof -
  have h: "nonneg_durations [boundary_annotation ''a1'' 1] [] (boundary_settings app_settings)"
    by (simp add: nonneg_durations_def nonneg_opt_def nonneg_def app_settings_def)
  have g: "jge (if enableFlash app_settings then jsub (Fin 6) (flashDuration app_settings)
                else Fin 6)
             (totalDuration (timeline boundary_points [boundary_annotation ''a1'' 1] []
            (boundary_settings app_settings)))"
    unfolding timeline_boundary by (simp add: app_settings_def jge_def)
  from C7_total_distance [OF h g]
  have "currentDistance (getAnimationState app_settings
        (timeline boundary_points [boundary_annotation ''a1'' 1] []
            (boundary_settings app_settings))
        (pathData boundary_points) (Fin 6)) = Fin 20"
    by (simp add: pathData_boundary)
  moreover from g have "jge (Fin 6) (totalDuration (timeline boundary_points
      [boundary_annotation ''a1'' 1] [] (boundary_settings app_settings)))"
    by (simp add: app_settings_def)
  ultimately show ?thesis using h by blast
qed

section \<open>Annotations out of range\<close>

lemma length_sched_step: "length (sched st) < length (sched (step pd s st it))"
proof (cases it)
  case (AnnotationItem a)
  from sched_draw_segment [of pd s st a] obtain es
    where "sched (draw_segment pd s st a) = sched st @ es" by blast
  with AnnotationItem show ?thesis by (simp add: wait_label_def Let_def)
next
  case (AreaItem ar)
  then show ?thesis by (simp add: Let_def)
qed

lemma sched_run_items_nonempty: "items \<noteq> [] \<Longrightarrow> sched (run_items pd s st items) \<noteq> []"
proof (cases items)
  case Nil
  assume "items \<noteq> []"
  with Nil show ?thesis by simp
next
  case (Cons it rest)
  from sched_run_items [of pd s "step pd s st it" rest] obtain es
    where "sched (run_items pd s (step pd s st it) rest) = sched (step pd s st it) @ es"
    by blast
  moreover from length_sched_step [of st pd s it] have "sched (step pd s st it) \<noteq> []"
    by auto
  ultimately show ?thesis using Cons by (simp add: run_items_Cons)
qed

lemma segmentDist_out_of_range:
  assumes "pathIndex a < 0 \<or> int (length points) \<le> pathIndex a"
  shows "\<not> jgt (segmentDist (pathData points) st (pathIndex a)) (Fin 0)"
proof (cases "pathIndex a > currentPointIdx st")
  case False
  then show ?thesis by (simp add: segmentDist_def jgt_def)
next
  case True
  let ?pds = "pointDistances (pathData points)"
  have "num_at ?pds (pathIndex a) = NaN \<or> num_at ?pds (currentPointIdx st) = NaN"
  proof (cases "0 \<le> pathIndex a \<and> pathIndex a < int (length ?pds)")
    case False
    then have "num_at ?pds (pathIndex a) = NaN" by (auto simp: num_at_def)
    then show ?thesis by blast
  next
    case True
    with assms have "pathIndex a = 0"
      by (simp add: length_pointDistances)
    with \<open>pathIndex a > currentPointIdx st\<close> show ?thesis by (simp add: num_at_def)
  qed
  then have "segmentDist (pathData points) st (pathIndex a) = NaN"
    using True by (auto simp: segmentDist_def)
  then show ?thesis by (simp add: jgt_def)
qed

text \<open>
  Claim C5, amended. The builder is a total function: a read outside \<open>pointDistances\<close>
  gives \<open>NaN\<close>, nothing is raised. For every waypoint sequence and every annotation whose
  \<open>pathIndex\<close> is negative or at least the number of waypoints, scheduled after the items
  \<open>pre\<close>: unless the annotation has \<open>pathIndex = 0\<close> and is the first item (there are then
  no waypoints, and the bootstrap draw event is emitted), it contributes no draw event:
  its step appends its wait event only, advances the time cursor by the wait duration,
  sets the index, and leaves the distance cursor unchanged. And when the durations of the
  items and the defaults are numbers that are not negative, every event of the schedule
  has a start time, a duration, a start distance and an end distance that are numbers
  (not \<open>NaN\<close>) and not negative.
\<close>

theorem C5_out_of_range:
  "((pathIndex a < 0 \<or> int (length points) \<le> pathIndex a) \<and> (pathIndex a \<noteq> 0 \<or> pre \<noteq> []) \<longrightarrow>
     run_items (pathData points) s init_state (pre @ [AnnotationItem a]) =
       (let st = run_items (pathData points) s init_state pre
        in st\<lparr>sched := sched st @
                  [\<lparr>etype = Wait, startTime = timeCursor st,
                    duration = nullish (pauseDuration a) (defaultPauseDuration s),
                    startDist = distCursor st, endDist = distCursor st,
                    itemId = Some (ann_id a)\<rparr>],
                timeCursor := jadd (timeCursor st)
                                (nullish (pauseDuration a) (defaultPauseDuration s)),
                currentPointIdx := pathIndex a\<rparr>))
   \<and> (nonneg_durations annotations areas s \<longrightarrow>
        list_all event_nonneg (schedule (timeline points annotations areas s)))"
proof -
  have "run_items (pathData points) s init_state (pre @ [AnnotationItem a]) =
       (let st = run_items (pathData points) s init_state pre
        in st\<lparr>sched := sched st @
                  [\<lparr>etype = Wait, startTime = timeCursor st,
                    duration = nullish (pauseDuration a) (defaultPauseDuration s),
                    startDist = distCursor st, endDist = distCursor st,
                    itemId = Some (ann_id a)\<rparr>],
                timeCursor := jadd (timeCursor st)
                                (nullish (pauseDuration a) (defaultPauseDuration s)),
                currentPointIdx := pathIndex a\<rparr>)"
    if h: "(pathIndex a < 0 \<or> int (length points) \<le> pathIndex a) \<and> (pathIndex a \<noteq> 0 \<or> pre \<noteq> [])"
  proof -
    let ?st = "run_items (pathData points) s init_state pre"
    from h have "pathIndex a \<noteq> 0 \<or> sched ?st \<noteq> []"
      using sched_run_items_nonempty [of pre "pathData points" s init_state] by blast
    then have "\<not> (currentPointIdx ?st = 0 \<and> pathIndex a = 0 \<and> length (sched ?st) = 0)"
      by auto
    with segmentDist_out_of_range [of a points ?st] h
    have "draw_segment (pathData points) s ?st a = ?st"
      by (simp only: draw_segment_cases simp_thms if_False)
    then show ?thesis
      by (simp add: run_items_append run_items_Cons run_items_Nil wait_label_def Let_def)
  qed
  moreover have "list_all event_nonneg (schedule (timeline points annotations areas s))"
    if "nonneg_durations annotations areas s"
    using state_ok_timeline [OF that, of points] by (simp add: list_all_iff)
  ultimately show ?thesis by blast
qed

lemma pathData_Nil:
  "pointDistances (pathData []) = [0]" "totalLength (pathData []) = 0"
  by (simp_all add: pointDistances_pathData totalLength_pathData cumulative_0)

text \<open>
  Claim C5, as stated for every waypoint sequence, fails without waypoints: the index 0
  is then out of range (\<open>0 \<ge> 0\<close> waypoints), and an annotation with \<open>pathIndex = 0\<close>
  scheduled first does contribute a draw event, the bootstrap one.
\<close>

theorem C5_out_of_range_counterexample:
  "int (length ([] :: point list)) \<le> pathIndex bootstrap_annotation
   \<and> timeline [] [bootstrap_annotation] [] app_settings
       = \<lparr>schedule =
            [\<lparr>etype = Draw, startTime = Fin 0, duration = Fin 2, startDist = Fin 0,
              endDist = Fin 0, itemId = None\<rparr>,
             \<lparr>etype = Wait, startTime = Fin 2, duration = Fin 1, startDist = Fin 0,
              endDist = Fin 0, itemId = Some ''a1''\<rparr>],
           totalDuration = Fin 3\<rparr>"
  by (simp add: builder_defs pathData_Nil app_settings_def)

theorem C5_out_of_range_witness:
  "int (length boundary_points) \<le> pathIndex stray_annotation
   \<and> run_items (pathData boundary_points) app_settings init_state [AnnotationItem stray_annotation]
       = \<lparr>sched = [\<lparr>etype = Wait, startTime = Fin 0, duration = Fin 1, startDist = Fin 0,
                    endDist = Fin 0, itemId = Some ''a7''\<rparr>],
          timeCursor = Fin 1, distCursor = Fin 0, currentPointIdx = 7\<rparr>
   \<and> nonneg_durations [stray_annotation] [] app_settings
   \<and> list_all event_nonneg (schedule (timeline boundary_points [stray_annotation] [] app_settings))"
proof -
  have r: "int (length boundary_points) \<le> pathIndex stray_annotation" by simp
  have z: "pathIndex stray_annotation \<noteq> 0" by simp
  have n: "nonneg_durations [stray_annotation] [] app_settings"
    by (simp add: nonneg_durations_def nonneg_opt_def nonneg_def app_settings_def)
  note c = C5_out_of_range [of stray_annotation boundary_points "[]" app_settings
      "[stray_annotation]" "[]"]
  from c r z
  have "run_items (pathData boundary_points) app_settings init_state
          ([] @ [AnnotationItem stray_annotation]) =
       (let st = run_items (pathData boundary_points) app_settings init_state []
        in st\<lparr>sched := sched st @
                  [\<lparr>etype = Wait, startTime = timeCursor st,
                    duration = nullish (pauseDuration stray_annotation)
                                 (defaultPauseDuration app_settings),
                    startDist = distCursor st, endDist = distCursor st,
                    itemId = Some (ann_id stray_annotation)\<rparr>],
                timeCursor := jadd (timeCursor st)
                                (nullish (pauseDuration stray_annotation)
                                   (defaultPauseDuration app_settings)),
                currentPointIdx := pathIndex stray_annotation\<rparr>)"
    by blast
  then have "run_items (pathData boundary_points) app_settings init_state
        [AnnotationItem stray_annotation]
       = \<lparr>sched = [\<lparr>etype = Wait, startTime = Fin 0, duration = Fin 1, startDist = Fin 0,
                    endDist = Fin 0, itemId = Some ''a7''\<rparr>],
          timeCursor = Fin 1, distCursor = Fin 0, currentPointIdx = 7\<rparr>"
    by (simp add: run_items_Nil init_state_def nullish_def Let_def)
  moreover from c n
  have "list_all event_nonneg (schedule (timeline boundary_points [stray_annotation] [] app_settings))"
    by blast
  ultimately show ?thesis using r n by blast
qed

section \<open>Backward references\<close>

lemma forward_jadd: "jgt sd (Fin 0) \<or> sd = Fin 0 \<Longrightarrow> \<not> jlt (jadd dc sd) dc"
  by (cases dc; cases sd) (auto simp: jgt_def)

lemma forward_refl: "\<not> jlt a a"
  by (cases a) simp_all

lemma forward_draw_segment:
  assumes "list_all (\<lambda>e. \<not> jlt (endDist e) (startDist e)) (sched st)"
  shows "list_all (\<lambda>e. \<not> jlt (endDist e) (startDist e)) (sched (draw_segment pd s st a))"
proof (cases "jgt (segmentDist pd st (pathIndex a)) (Fin 0)
         \<or> (currentPointIdx st = 0 \<and> pathIndex a = 0 \<and> length (sched st) = 0)")
  case True
  then have "jgt (segmentDist pd st (pathIndex a)) (Fin 0) \<or> segmentDist pd st (pathIndex a) = Fin 0"
    by (auto simp: segmentDist_def)
  from forward_jadd [OF this] assms True show ?thesis
    by (simp add: draw_segment_cases)
next
  case False
  with assms show ?thesis by (simp only: draw_segment_cases if_False)
qed

lemma forward_step:
  assumes "list_all (\<lambda>e. \<not> jlt (endDist e) (startDist e)) (sched st)"
  shows "list_all (\<lambda>e. \<not> jlt (endDist e) (startDist e)) (sched (step pd s st it))"
proof (cases it)
  case (AnnotationItem a)
  with forward_draw_segment [OF assms, of pd s a] show ?thesis
    by (simp add: wait_label_def Let_def forward_refl)
next
  case (AreaItem ar)
  with assms show ?thesis by (simp add: Let_def forward_refl)
qed

lemma forward_run_items:
  "list_all (\<lambda>e. \<not> jlt (endDist e) (startDist e)) (sched st) \<Longrightarrow>
   list_all (\<lambda>e. \<not> jlt (endDist e) (startDist e)) (sched (run_items pd s st items))"
proof (induction items arbitrary: st)
  case Nil
  then show ?case by (simp add: run_items_Nil)
next
  case (Cons it items)
  from Cons.IH [OF forward_step [OF Cons.prems]] show ?case
    by (simp add: run_items_Cons)
qed

lemma forward_finish_tail:
  assumes "list_all (\<lambda>e. \<not> jlt (endDist e) (startDist e)) (sched st)"
  shows "list_all (\<lambda>e. \<not> jlt (endDist e) (startDist e)) (sched (finish_tail points pd s st))"
proof (cases "currentPointIdx st < int (length points) - 1 \<and> jgt (remainingDist pd st) (Fin 0.1)")
  case True
  then have "jgt (remainingDist pd st) (Fin 0)"
    by (cases "remainingDist pd st") (simp_all add: jgt_def)
  then have "\<not> jlt (jadd (distCursor st) (remainingDist pd st)) (distCursor st)"
    by (intro forward_jadd) simp
  with assms True show ?thesis by (simp add: finish_tail_cases)
next
  case False
  with assms show ?thesis by (simp only: finish_tail_cases if_False)
qed

lemma forward_timeline:
  "list_all (\<lambda>e. \<not> jlt (endDist e) (startDist e)) (schedule (timeline points annotations areas s))"
proof -
  have "list_all (\<lambda>e. \<not> jlt (endDist e) (startDist e)) (sched init_state)"
    by (simp add: init_state_def)
  from forward_finish_tail [OF forward_run_items [OF this]] show ?thesis
    by (simp add: timeline_def Let_def)
qed

lemma cumulative_nonneg: "0 \<le> cumulative points i"
  by (simp add: cumulative_def dist_pt_def sum_nonneg)

lemma num_at_pointDistances:
  "i < length points \<Longrightarrow> num_at (pointDistances (pathData points)) (int i) = Fin (pointDistances (pathData points) ! i)"
  by (simp add: num_at_def length_pointDistances)

lemma distCursor_first:
  assumes "3 \<le> length points" "pathIndex a1 = 2"
  shows "distCursor (draw_segment (pathData points) s init_state a1)
           = Fin (pointDistances (pathData points) ! 2)"
proof -
  let ?pd = "pathData points"
  have n2: "num_at (pointDistances ?pd) 2 = Fin (pointDistances ?pd ! 2)"
    using num_at_pointDistances [of 2 points] assms(1) by simp
  have sd: "segmentDist ?pd init_state (pathIndex a1) = Fin (pointDistances ?pd ! 2)"
    using assms(2) n2 by (simp add: segmentDist_def init_state_def num_at_pointDistances_0)
  have "0 \<le> pointDistances ?pd ! 2"
    using nth_pointDistances [of 2 points] assms(1) cumulative_nonneg [of points 2] by simp
  then show ?thesis
    using sd assms(2)
    by (cases "0 < pointDistances ?pd ! 2")
       (simp_all add: draw_segment_cases jgt_def init_state_def)
qed

lemma pathData_coincident:
  "pointDistances (pathData coincident_points) = [0, 0, 0]"
  "totalLength (pathData coincident_points) = 0"
  by (simp_all add: pointDistances_pathData totalLength_pathData cumulative_def dist_pt_def
      numeral_2_eq_2)

lemma sorted_items_backward:
  "sorted_items [backward_first, backward_second] []
     = [AnnotationItem backward_first, AnnotationItem backward_second]"
  by (simp add: sorted_items_def)

text \<open>
  Claim C3, as stated, fails in two ways. With three waypoints at the same place the
  path is not longer than 0.1 and no tail draw event is emitted: the schedule is the two
  wait events. And on the waypoints (0,0), (10,0), (10,10), where the first annotation has
  drawn the whole path, the tail event does not cover the path from waypoint 0 (distance
  0) to the end (distance 20): it starts at the distance cursor, 20, and ends at 40, and
  the distance returned in the middle of it, at time 5, is 30, beyond the length 20 of
  the path.
\<close>

theorem C3_backward_pathIndex_counterexample:
  "3 \<le> length coincident_points
   \<and> sorted_items [backward_first, backward_second] []
       = [AnnotationItem backward_first, AnnotationItem backward_second]
   \<and> timeline coincident_points [backward_first, backward_second] [] app_settings
       = \<lparr>schedule =
            [\<lparr>etype = Wait, startTime = Fin 0, duration = Fin 1, startDist = Fin 0,
              endDist = Fin 0, itemId = Some ''a1''\<rparr>,
             \<lparr>etype = Wait, startTime = Fin 1, duration = Fin 1, startDist = Fin 0,
              endDist = Fin 0, itemId = Some ''a2''\<rparr>],
           totalDuration = Fin 2\<rparr>
   \<and> filter (\<lambda>e. etype e = Draw)
        (schedule (timeline coincident_points [backward_first, backward_second] []
           app_settings)) = []
   \<and> 3 \<le> length boundary_points
   \<and> timeline boundary_points [backward_first, backward_second] [] app_settings
       = \<lparr>schedule =
            [\<lparr>etype = Draw, startTime = Fin 0, duration = Fin 2, startDist = Fin 0,
              endDist = Fin 20, itemId = None\<rparr>,
             \<lparr>etype = Wait, startTime = Fin 2, duration = Fin 1, startDist = Fin 20,
              endDist = Fin 20, itemId = Some ''a1''\<rparr>,
             \<lparr>etype = Wait, startTime = Fin 3, duration = Fin 1, startDist = Fin 20,
              endDist = Fin 20, itemId = Some ''a2''\<rparr>,
             \<lparr>etype = Draw, startTime = Fin 4, duration = Fin 2, startDist = Fin 20,
              endDist = Fin 40, itemId = None\<rparr>],
           totalDuration = Fin 6\<rparr>
   \<and> pointDistances (pathData boundary_points) ! 0 = 0
   \<and> totalLength (pathData boundary_points) = 20
   \<and> currentDistance (getAnimationState app_settings
         (timeline boundary_points [backward_first, backward_second] [] app_settings)
         (pathData boundary_points) (Fin 5)) = Fin 30"
proof -
  have c: "timeline coincident_points [backward_first, backward_second] [] app_settings
       = \<lparr>schedule =
            [\<lparr>etype = Wait, startTime = Fin 0, duration = Fin 1, startDist = Fin 0,
              endDist = Fin 0, itemId = Some ''a1''\<rparr>,
             \<lparr>etype = Wait, startTime = Fin 1, duration = Fin 1, startDist = Fin 0,
              endDist = Fin 0, itemId = Some ''a2''\<rparr>],
           totalDuration = Fin 2\<rparr>"
    by (simp add: builder_defs pathData_coincident app_settings_def)
  have b: "timeline boundary_points [backward_first, backward_second] [] app_settings
       = \<lparr>schedule =
            [\<lparr>etype = Draw, startTime = Fin 0, duration = Fin 2, startDist = Fin 0,
              endDist = Fin 20, itemId = None\<rparr>,
             \<lparr>etype = Wait, startTime = Fin 2, duration = Fin 1, startDist = Fin 20,
              endDist = Fin 20, itemId = Some ''a1''\<rparr>,
             \<lparr>etype = Wait, startTime = Fin 3, duration = Fin 1, startDist = Fin 20,
              endDist = Fin 20, itemId = Some ''a2''\<rparr>,
             \<lparr>etype = Draw, startTime = Fin 4, duration = Fin 2, startDist = Fin 20,
              endDist = Fin 40, itemId = None\<rparr>],
           totalDuration = Fin 6\<rparr>"
    by (simp add: builder_defs pathData_boundary app_settings_def)
  have r: "currentDistance (getAnimationState app_settings
         (timeline boundary_points [backward_first, backward_second] [] app_settings)
         (pathData boundary_points) (Fin 5)) = Fin 30"
    unfolding b by (simp add: resolver_defs pathData_boundary app_settings_def)
  from c b r show ?thesis
    by (simp add: sorted_items_backward pathData_boundary)
qed

text \<open>
  Claim C3, amended. For every input, no event of the schedule has an end distance
  smaller than its start distance. With at least 3 waypoints and exactly two items, an
  annotation on waypoint 2 followed by an annotation on waypoint 0: the second annotation
  appends its wait event only (no draw event) and the index ends at 0; when
  \<open>totalLength - pointDistances[0]\<close> exceeds 0.1 the schedule ends with one tail draw
  event, lasting the default segment duration, whose end distance minus its start
  distance is the full remaining distance \<open>totalLength - pointDistances[0]\<close>; when it
  does not, no tail event is emitted. (Which stretch of the path the tail event covers is
  not part of the statement.)
\<close>

theorem C3_backward_pathIndex:
  "list_all (\<lambda>e. \<not> jlt (endDist e) (startDist e))
     (schedule (timeline points annotations areas s))
   \<and> (3 \<le> length points \<and> pathIndex a1 = 2 \<and> pathIndex a2 = 0
       \<and> sorted_items annotations areas = [AnnotationItem a1, AnnotationItem a2] \<longrightarrow>
       (let pd = pathData points;
            st1 = run_items pd s init_state [AnnotationItem a1];
            st2 = run_items pd s init_state [AnnotationItem a1, AnnotationItem a2]
        in sched st2 = sched st1 @
             [\<lparr>etype = Wait, startTime = timeCursor st1,
               duration = nullish (pauseDuration a2) (defaultPauseDuration s),
               startDist = distCursor st1, endDist = distCursor st1,
               itemId = Some (ann_id a2)\<rparr>]
           \<and> currentPointIdx st2 = 0
           \<and> (if 0.1 < totalLength pd - pointDistances pd ! 0
               then \<exists>tail. schedule (timeline points annotations areas s) = sched st2 @ [tail]
                      \<and> etype tail = Draw \<and> startTime tail = timeCursor st2
                      \<and> duration tail = defaultSegmentDuration s \<and> itemId tail = None
                      \<and> jsub (endDist tail) (startDist tail)
                          = Fin (totalLength pd - pointDistances pd ! 0)
               else schedule (timeline points annotations areas s) = sched st2)))"
proof -
  let ?pd = "pathData points"
  let ?st1 = "run_items ?pd s init_state [AnnotationItem a1]"
  let ?st2 = "run_items ?pd s init_state [AnnotationItem a1, AnnotationItem a2]"
  have b: "sched ?st2 = sched ?st1 @
             [\<lparr>etype = Wait, startTime = timeCursor ?st1,
               duration = nullish (pauseDuration a2) (defaultPauseDuration s),
               startDist = distCursor ?st1, endDist = distCursor ?st1,
               itemId = Some (ann_id a2)\<rparr>]
           \<and> currentPointIdx ?st2 = 0
           \<and> (if 0.1 < totalLength ?pd - pointDistances ?pd ! 0
               then \<exists>tail. schedule (timeline points annotations areas s) = sched ?st2 @ [tail]
                      \<and> etype tail = Draw \<and> startTime tail = timeCursor ?st2
                      \<and> duration tail = defaultSegmentDuration s \<and> itemId tail = None
                      \<and> jsub (endDist tail) (startDist tail)
                          = Fin (totalLength ?pd - pointDistances ?pd ! 0)
               else schedule (timeline points annotations areas s) = sched ?st2)"
    if h: "3 \<le> length points" "pathIndex a1 = 2" "pathIndex a2 = 0"
      "sorted_items annotations areas = [AnnotationItem a1, AnnotationItem a2]"
  proof -
    have st1: "?st1 = wait_label s (draw_segment ?pd s init_state a1) a1"
      by (simp add: run_items_Cons run_items_Nil)
    then have i1: "currentPointIdx ?st1 = 2"
      using h(2) by (simp add: wait_label_def Let_def)
    have d1: "distCursor ?st1 = Fin (pointDistances ?pd ! 2)"
      using distCursor_first [OF h(1,2), of s] by (simp add: st1 wait_label_def Let_def)
    have "segmentDist ?pd ?st1 (pathIndex a2) = Fin 0"
      using i1 h(3) by (simp add: segmentDist_def)
    with i1 have "draw_segment ?pd s ?st1 a2 = ?st1"
      by (simp add: draw_segment_cases jgt_def)
    then have st2: "?st2 = wait_label s ?st1 a2"
      by (simp add: run_items_Cons run_items_Nil)
    have p0: "pointDistances ?pd ! 0 = 0"
      using nth_pointDistances [of 0 points] by (simp add: cumulative_0)
    have i2: "currentPointIdx ?st2 = 0" and d2: "distCursor ?st2 = Fin (pointDistances ?pd ! 2)"
      using h(3) d1 by (simp_all add: st2 wait_label_def Let_def)
    have r: "remainingDist ?pd ?st2 = Fin (totalLength ?pd - pointDistances ?pd ! 0)"
      using i2 by (simp add: remainingDist_def num_at_pointDistances_0 p0)
    have c: "currentPointIdx ?st2 < int (length points) - 1"
      using i2 h(1) by simp
    have t: "schedule (timeline points annotations areas s) = sched (finish_tail points ?pd s ?st2)"
      using h(4) by (simp add: timeline_def Let_def)
    have w: "sched ?st2 = sched ?st1 @
             [\<lparr>etype = Wait, startTime = timeCursor ?st1,
               duration = nullish (pauseDuration a2) (defaultPauseDuration s),
               startDist = distCursor ?st1, endDist = distCursor ?st1,
               itemId = Some (ann_id a2)\<rparr>]"
      by (simp add: st2 wait_label_def Let_def)
    have tl: "if 0.1 < totalLength ?pd - pointDistances ?pd ! 0
               then \<exists>tail. schedule (timeline points annotations areas s) = sched ?st2 @ [tail]
                      \<and> etype tail = Draw \<and> startTime tail = timeCursor ?st2
                      \<and> duration tail = defaultSegmentDuration s \<and> itemId tail = None
                      \<and> jsub (endDist tail) (startDist tail)
                          = Fin (totalLength ?pd - pointDistances ?pd ! 0)
               else schedule (timeline points annotations areas s) = sched ?st2"
    proof (cases "0.1 < totalLength ?pd - pointDistances ?pd ! 0")
      case True
      let ?tail = "\<lparr>etype = Draw, startTime = timeCursor ?st2,
                     duration = defaultSegmentDuration s, startDist = distCursor ?st2,
                     endDist = jadd (distCursor ?st2) (remainingDist ?pd ?st2),
                     itemId = None\<rparr>"
      from True c r have a: "sched (finish_tail points ?pd s ?st2) = sched ?st2 @ [?tail]"
        by (simp add: finish_tail_cases jgt_def)
      have e1: "schedule (timeline points annotations areas s) = sched ?st2 @ [?tail]"
        by (rule trans [OF t a])
      have e2: "etype ?tail = Draw" and e3: "startTime ?tail = timeCursor ?st2"
        and e4: "duration ?tail = defaultSegmentDuration s" and e5: "itemId ?tail = None"
        by simp_all
      have e6: "jsub (endDist ?tail) (startDist ?tail)
                          = Fin (totalLength ?pd - pointDistances ?pd ! 0)"
        by (simp add: r d2)
      have "\<exists>tail. schedule (timeline points annotations areas s) = sched ?st2 @ [tail]
                      \<and> etype tail = Draw \<and> startTime tail = timeCursor ?st2
                      \<and> duration tail = defaultSegmentDuration s \<and> itemId tail = None
                      \<and> jsub (endDist tail) (startDist tail)
                          = Fin (totalLength ?pd - pointDistances ?pd ! 0)"
        by (rule exI [of _ ?tail])
           (rule conjI [OF e1 conjI [OF e2 conjI [OF e3 conjI [OF e4 conjI [OF e5 e6]]]]])
      with True show ?thesis by (simp only: if_True)
    next
      case False
      with r have "sched (finish_tail points ?pd s ?st2) = sched ?st2"
        by (simp add: finish_tail_cases jgt_def)
      with t have "schedule (timeline points annotations areas s) = sched ?st2"
        by (rule trans)
      with False show ?thesis by (simp only: if_False)
    qed
    show ?thesis by (rule conjI [OF w conjI [OF i2 tl]])
  qed
  have "3 \<le> length points \<and> pathIndex a1 = 2 \<and> pathIndex a2 = 0
       \<and> sorted_items annotations areas = [AnnotationItem a1, AnnotationItem a2] \<longrightarrow>
       (let pd = pathData points;
            st1 = run_items pd s init_state [AnnotationItem a1];
            st2 = run_items pd s init_state [AnnotationItem a1, AnnotationItem a2]
        in sched st2 = sched st1 @
             [\<lparr>etype = Wait, startTime = timeCursor st1,
               duration = nullish (pauseDuration a2) (defaultPauseDuration s),
               startDist = distCursor st1, endDist = distCursor st1,
               itemId = Some (ann_id a2)\<rparr>]
           \<and> currentPointIdx st2 = 0
           \<and> (if 0.1 < totalLength pd - pointDistances pd ! 0
               then \<exists>tail. schedule (timeline points annotations areas s) = sched st2 @ [tail]
                      \<and> etype tail = Draw \<and> startTime tail = timeCursor st2
                      \<and> duration tail = defaultSegmentDuration s \<and> itemId tail = None
                      \<and> jsub (endDist tail) (startDist tail)
                          = Fin (totalLength pd - pointDistances pd ! 0)
               else schedule (timeline points annotations areas s) = sched st2))"
    unfolding Let_def
  proof (rule impI)
    assume "3 \<le> length points \<and> pathIndex a1 = 2 \<and> pathIndex a2 = 0
       \<and> sorted_items annotations areas = [AnnotationItem a1, AnnotationItem a2]"
    then have h: "3 \<le> length points" "pathIndex a1 = 2" "pathIndex a2 = 0"
      "sorted_items annotations areas = [AnnotationItem a1, AnnotationItem a2]"
      by simp_all
    show "sched ?st2 = sched ?st1 @
             [\<lparr>etype = Wait, startTime = timeCursor ?st1,
               duration = nullish (pauseDuration a2) (defaultPauseDuration s),
               startDist = distCursor ?st1, endDist = distCursor ?st1,
               itemId = Some (ann_id a2)\<rparr>]
           \<and> currentPointIdx ?st2 = 0
           \<and> (if 0.1 < totalLength ?pd - pointDistances ?pd ! 0
               then \<exists>tail. schedule (timeline points annotations areas s) = sched ?st2 @ [tail]
                      \<and> etype tail = Draw \<and> startTime tail = timeCursor ?st2
                      \<and> duration tail = defaultSegmentDuration s \<and> itemId tail = None
                      \<and> jsub (endDist tail) (startDist tail)
                          = Fin (totalLength ?pd - pointDistances ?pd ! 0)
               else schedule (timeline points annotations areas s) = sched ?st2)"
      by (rule b [OF h])
  qed
  with forward_timeline [of points annotations areas s] show ?thesis
    by (rule conjI)
qed

theorem C3_backward_pathIndex_witness:
  "3 \<le> length boundary_points
   \<and> sorted_items [backward_first, backward_second] []
       = [AnnotationItem backward_first, AnnotationItem backward_second]
   \<and> currentPointIdx (run_items (pathData boundary_points) app_settings init_state
        [AnnotationItem backward_first, AnnotationItem backward_second]) = 0
   \<and> (\<exists>tail. schedule (timeline boundary_points [backward_first, backward_second] []
                  app_settings)
               = sched (run_items (pathData boundary_points) app_settings init_state
                   [AnnotationItem backward_first, AnnotationItem backward_second]) @ [tail]
          \<and> etype tail = Draw \<and> duration tail = Fin 2
          \<and> jsub (endDist tail) (startDist tail) = Fin 20)"
proof -
  let ?pd = "pathData boundary_points"
  let ?st2 = "run_items ?pd app_settings init_state
                [AnnotationItem backward_first, AnnotationItem backward_second]"
  let ?tl = "timeline boundary_points [backward_first, backward_second] [] app_settings"
  have h: "3 \<le> length boundary_points \<and> pathIndex backward_first = 2
       \<and> pathIndex backward_second = 0
       \<and> sorted_items [backward_first, backward_second] []
           = [AnnotationItem backward_first, AnnotationItem backward_second]"
    by (simp add: sorted_items_backward)
  have g: "0.1 < totalLength ?pd - pointDistances ?pd ! 0"
    by (simp add: pathData_boundary)
  from C3_backward_pathIndex [of boundary_points "[backward_first, backward_second]" "[]"
      app_settings backward_first backward_second, THEN conjunct2, THEN mp, OF h,
      unfolded Let_def, THEN conjunct2]
  have c: "currentPointIdx ?st2 = 0
           \<and> (if 0.1 < totalLength ?pd - pointDistances ?pd ! 0
               then \<exists>tail. schedule ?tl = sched ?st2 @ [tail]
                      \<and> etype tail = Draw \<and> startTime tail = timeCursor ?st2
                      \<and> duration tail = defaultSegmentDuration app_settings
                      \<and> itemId tail = None
                      \<and> jsub (endDist tail) (startDist tail)
                          = Fin (totalLength ?pd - pointDistances ?pd ! 0)
               else schedule ?tl = sched ?st2)" .
  from c have i: "currentPointIdx ?st2 = 0" by (rule conjunct1)
  from c [THEN conjunct2] g
  have "\<exists>tail. schedule ?tl = sched ?st2 @ [tail]
                      \<and> etype tail = Draw \<and> startTime tail = timeCursor ?st2
                      \<and> duration tail = defaultSegmentDuration app_settings
                      \<and> itemId tail = None
                      \<and> jsub (endDist tail) (startDist tail)
                          = Fin (totalLength ?pd - pointDistances ?pd ! 0)"
    by (simp only: if_True)
  then obtain tail where t: "schedule ?tl = sched ?st2 @ [tail]" "etype tail = Draw"
    "duration tail = defaultSegmentDuration app_settings"
    "jsub (endDist tail) (startDist tail) = Fin (totalLength ?pd - pointDistances ?pd ! 0)"
    by (elim exE conjE)
  have "jsub (endDist tail) (startDist tail) = Fin 20"
    using t(4) by (simp add: pathData_boundary)
  moreover have "duration tail = Fin 2"
    using t(3) by (simp add: app_settings_def)
  ultimately have e: "\<exists>tail. schedule ?tl = sched ?st2 @ [tail] \<and> etype tail = Draw
          \<and> duration tail = Fin 2 \<and> jsub (endDist tail) (startDist tail) = Fin 20"
    using t(1,2) by blast
  from h have h1: "3 \<le> length boundary_points"
    and h4: "sorted_items [backward_first, backward_second] []
           = [AnnotationItem backward_first, AnnotationItem backward_second]"
    by (rule conjunct1, simp add: sorted_items_backward)
  show ?thesis by (rule conjI [OF h1 conjI [OF h4 conjI [OF i e]]])
qed

end
